theory Spec2Isabelle
  imports Main "HOL-Library.AList"
begin

section \<open>The enumerations of dust/__init__.py\<close>

datatype Datatypes = D_INT | D_NUMERIC | D_BOOL | D_STRING | D_BYTES | D_JSON | D_ENTITY

datatype ValueTypes = SINGLE | SET | LIST | MAP

datatype Operation = Op_SET | Op_ADD | Op_GET | Op_PEEK | Op_VISIT | Op_CHANGE | Op_DEL | Op_WALK

datatype Committed = CREATED | UPDATED | DELETED | SAVED

text \<open>
  A member of a \<open>MetaProps\<close> enumeration (a field descriptor): the class it belongs to,
  its name and the four components of its value tuple.
\<close>

record field =
  f_class :: string
  f_name :: string
  f_datatype :: Datatypes
  f_valuetype :: ValueTypes
  f_order_value :: int
  f_id_value :: int

text \<open>
  A member of a \<open>FieldProps\<close> enumeration (a meta-type descriptor): \<open>type_name\<close> is the
  member's name, \<open>unit_name\<close>, \<open>fields_enum\<close> and \<open>id_value\<close> are its value tuple.
\<close>

record meta_type =
  m_class :: string
  type_name :: string
  unit_name :: string
  fields_enum :: "field list"
  id_value :: int

section \<open>Python values\<close>

text \<open>
  The values the store handles: \<open>None\<close>, integers, strings, \<open>Entity\<close> objects, members of
  \<open>Committed\<close>, and lists and sets of these. Python's \<open>bool\<close> is a subclass of \<open>int\<close> with
  \<open>True == 1\<close> and \<open>False == 0\<close> (same hash, same arithmetic), so \<open>True\<close> and \<open>False\<close> are
  written \<open>AInt 1\<close> and \<open>AInt 0\<close>. With that, HOL equality on \<open>pyval\<close> is Python's \<open>==\<close>.
  An \<open>Entity\<close> object is referred to by a handle: the key of \<open>_entity_map\<close> under which
  \<open>_add_entity_to_store\<close> filed it. Floats and dictionaries as field values are outside
  the model.
\<close>

datatype atom = ANone | AInt int | AStr string | AEntity string | ACommitted Committed

datatype pyval = Atom atom | PList "atom list" | PSet "atom set"

datatype error =
    KeyError | TypeError | AttributeError | IndexError | NameError | ValueError
  | PyException string
  | SqlError
  | Unmodelled

fun bnd :: "error + 'a \<Rightarrow> ('a \<Rightarrow> error + 'b) \<Rightarrow> error + 'b" where
  "bnd (Inl e) f = Inl e"
| "bnd (Inr x) f = f x"

text \<open>A dictionary keeps insertion order: an association list, read with \<open>map_of\<close> and
  written with \<open>AList.update\<close> (an existing key keeps its place, a new one goes last).\<close>

type_synonym 'v dict = "(string \<times> 'v) list"

definition dict_get :: "'v dict \<Rightarrow> string \<Rightarrow> error + 'v" where
  "dict_get d k = (case map_of d k of None \<Rightarrow> Inl KeyError | Some v \<Rightarrow> Inr v)"

subsection \<open>str(int), int(str), str.split\<close>

fun nat_digits :: "nat \<Rightarrow> string" where
  "nat_digits n =
     (if n < 10 then [''0123456789'' ! n]
      else nat_digits (n div 10) @ [''0123456789'' ! (n mod 10)])"

declare nat_digits.simps [simp del]

definition str_int :: "int \<Rightarrow> string" where
  "str_int i = (if i < 0 then CHR ''-'' # nat_digits (nat (- i)) else nat_digits (nat i))"

fun split_colon :: "string \<Rightarrow> string list" where
  "split_colon [] = [[]]"
| "split_colon (c # cs) =
     (if c = CHR '':'' then [] # split_colon cs
      else (case split_colon cs of [] \<Rightarrow> [[c]] | p # ps \<Rightarrow> (c # p) # ps))"

definition py_isspace :: "char \<Rightarrow> bool" where
  "py_isspace c = (let n = (of_char c :: nat) in (9 \<le> n \<and> n \<le> 13) \<or> (28 \<le> n \<and> n \<le> 32))"

definition is_digit :: "char \<Rightarrow> bool" where
  "is_digit c = (let n = (of_char c :: nat) in 48 \<le> n \<and> n \<le> 57)"

definition digit_val :: "char \<Rightarrow> nat" where
  "digit_val c = of_char c - 48"

fun digits_acc :: "nat \<Rightarrow> string \<Rightarrow> nat option" where
  "digits_acc a [] = Some a"
| "digits_acc a [c] = (if is_digit c then Some (10 * a + digit_val c) else None)"
| "digits_acc a (c # d # ds) =
     (if is_digit c then digits_acc (10 * a + digit_val c) (d # ds)
      else if c = CHR ''_'' \<and> is_digit d then digits_acc (10 * a + digit_val d) ds
      else None)"

definition py_digits :: "string \<Rightarrow> nat option" where
  "py_digits s =
     (case s of [] \<Rightarrow> None
      | c # cs \<Rightarrow> if is_digit c then digits_acc (digit_val c) cs else None)"

definition strip :: "string \<Rightarrow> string" where
  "strip s = rev (dropWhile py_isspace (rev (dropWhile py_isspace s)))"

text \<open>\<open>int(s)\<close> on an ASCII string, base ten: surrounding whitespace, one optional sign,
  digits with single underscores between them. \<open>None\<close> is the \<open>ValueError\<close>.\<close>

definition py_int :: "string \<Rightarrow> int option" where
  "py_int s =
     (case strip s of [] \<Rightarrow> None
      | c # cs \<Rightarrow>
          if c = CHR ''-'' then map_option (\<lambda>n. - int n) (py_digits cs)
          else if c = CHR ''+'' then map_option int (py_digits cs)
          else map_option int (py_digits (c # cs)))"

fun is_prefix :: "string \<Rightarrow> string \<Rightarrow> bool" where
  "is_prefix [] t = True"
| "is_prefix (c # s) [] = False"
| "is_prefix (c # s) (d # t) = (c = d \<and> is_prefix s t)"

fun py_substr :: "string \<Rightarrow> string \<Rightarrow> bool" where
  "py_substr s [] = (s = [])"
| "py_substr s (d # t) = (is_prefix s (d # t) \<or> py_substr s t)"

fun ends_with :: "string \<Rightarrow> string \<Rightarrow> bool" where
  "ends_with s suf = is_prefix (rev suf) (rev s)"

section \<open>The store: \<open>_entity_map\<close> and \<open>_enum_map\<close> of dust/entity.py\<close>

text \<open>An \<open>Entity\<close> object (\<open>Entity.__init__\<close>): \<open>unit\<close> and \<open>meta_type\<close> are handles of
  other \<open>Entity\<close> objects.\<close>

record entity =
  e_unit :: string
  entity_id :: int
  e_meta_type :: string
  committed :: atom

text \<open>\<open>Entity.__init__\<close>: \<open>self.committed = False\<close>.\<close>

definition Entity :: "string \<Rightarrow> int \<Rightarrow> string \<Rightarrow> entity" where
  "Entity u i m = \<lparr>e_unit = u, entity_id = i, e_meta_type = m, committed = AInt 0\<rparr>"

text \<open>\<open>_enum_map\<close> is one dictionary whose keys are strings (unit names, qualified field
  names, global ids), \<open>Entity\<close> objects and enumeration members, and whose values are
  \<open>Entity\<close> objects, strings, meta-type members and field configurations.\<close>

datatype ekey = KS string | KE string | KM meta_type | KF field

record field_config =
  c_datatype :: Datatypes
  c_valuetype :: ValueTypes
  c_id :: int
  c_order :: int
  c_enum :: field

datatype evalue = VS string | VE string | VM meta_type | VC field_config

text \<open>A change notification handed to \<open>dust.messages.create_message\<close>: the operation,
  the rendered path and the affected global ids.\<close>

type_synonym message = "Operation \<times> string list \<times> string list"

text \<open>\<open>dust.messages\<close> is not among the sources: whether \<open>_messages_create_message\<close> is
  bound and the constant \<open>UNIT_MESSAGES\<close> are components of the state, and the messages
  handed over are collected in \<open>messages\<close>.\<close>

record store =
  entity_map :: "((string \<times> pyval) list \<times> entity) dict"
  enum_map :: "ekey \<rightharpoonup> evalue"
  messages_create_message :: bool
  UNIT_MESSAGES :: string
  messages :: "message list"

definition UNIT_ENTITY :: string where "UNIT_ENTITY = ''entity''"
definition UNIT_ENTITY_META :: string where "UNIT_ENTITY_META = ''entity_meta''"

definition mk_field :: "string \<Rightarrow> string \<Rightarrow> Datatypes \<Rightarrow> ValueTypes \<Rightarrow> int \<Rightarrow> int \<Rightarrow> field" where
  "mk_field c n d v ord i =
     \<lparr>f_class = c, f_name = n, f_datatype = d, f_valuetype = v, f_order_value = ord, f_id_value = i\<rparr>"

definition UnitMeta_name :: field where
  "UnitMeta_name = mk_field ''UnitMeta'' ''name'' D_STRING SINGLE 1 100"
definition UnitMeta_id_cnt :: field where
  "UnitMeta_id_cnt = mk_field ''UnitMeta'' ''id_cnt'' D_INT SINGLE 2 101"
definition UnitMeta_meta_types :: field where
  "UnitMeta_meta_types = mk_field ''UnitMeta'' ''meta_types'' D_ENTITY SET 3 102"

definition TypeMeta_name :: field where
  "TypeMeta_name = mk_field ''TypeMeta'' ''name'' D_STRING SINGLE 1 200"
definition TypeMeta_fields :: field where
  "TypeMeta_fields = mk_field ''TypeMeta'' ''fields'' D_ENTITY SET 2 201"

definition MetaField_name :: field where
  "MetaField_name = mk_field ''MetaField'' ''name'' D_STRING SINGLE 1 300"
definition MetaField_global_name :: field where
  "MetaField_global_name = mk_field ''MetaField'' ''global_name'' D_STRING SINGLE 2 301"
definition MetaField_order :: field where
  "MetaField_order = mk_field ''MetaField'' ''order'' D_INT SINGLE 3 302"

definition EntityBaseMeta_unit :: field where
  "EntityBaseMeta_unit = mk_field ''EntityBaseMeta'' ''unit'' D_ENTITY SINGLE 1 400"
definition EntityBaseMeta_meta_type :: field where
  "EntityBaseMeta_meta_type = mk_field ''EntityBaseMeta'' ''meta_type'' D_ENTITY SINGLE 2 401"
definition EntityBaseMeta_entity_id :: field where
  "EntityBaseMeta_entity_id = mk_field ''EntityBaseMeta'' ''entity_id'' D_INT SINGLE 3 402"
definition EntityBaseMeta_committed :: field where
  "EntityBaseMeta_committed = mk_field ''EntityBaseMeta'' ''committed'' D_BOOL SINGLE 4 403"

definition UnitMeta :: "field list" where
  "UnitMeta = [UnitMeta_name, UnitMeta_id_cnt, UnitMeta_meta_types]"
definition TypeMeta :: "field list" where
  "TypeMeta = [TypeMeta_name, TypeMeta_fields]"
definition MetaField :: "field list" where
  "MetaField = [MetaField_name, MetaField_global_name, MetaField_order]"
definition EntityBaseMeta :: "field list" where
  "EntityBaseMeta =
     [EntityBaseMeta_unit, EntityBaseMeta_meta_type, EntityBaseMeta_entity_id,
      EntityBaseMeta_committed]"

definition mk_meta :: "string \<Rightarrow> string \<Rightarrow> string \<Rightarrow> field list \<Rightarrow> int \<Rightarrow> meta_type" where
  "mk_meta c n u fs i =
     \<lparr>m_class = c, type_name = n, unit_name = u, fields_enum = fs, id_value = i\<rparr>"

definition EntityTypes_type_meta :: meta_type where
  "EntityTypes_type_meta = mk_meta ''EntityTypes'' ''type_meta'' UNIT_ENTITY_META TypeMeta 1"
definition EntityTypes_entity_base :: meta_type where
  "EntityTypes_entity_base =
     mk_meta ''EntityTypes'' ''_entity_base'' UNIT_ENTITY_META EntityBaseMeta 2"
definition EntityTypes_unit :: meta_type where
  "EntityTypes_unit = mk_meta ''EntityTypes'' ''unit'' UNIT_ENTITY_META UnitMeta 3"
definition EntityTypes_meta_field :: meta_type where
  "EntityTypes_meta_field = mk_meta ''EntityTypes'' ''meta_field'' UNIT_ENTITY_META MetaField 4"

definition EntityTypes :: "meta_type list" where
  "EntityTypes =
     [EntityTypes_type_meta, EntityTypes_entity_base, EntityTypes_unit, EntityTypes_meta_field]"


section \<open>Paths and \<open>_enum_map\<close> look-ups\<close>

text \<open>An element of the variadic \<open>*path\<close> of \<open>Store.access\<close>: a plain value (unit name,
  id, global id, index), a \<open>FieldProps\<close> member or a \<open>MetaProps\<close> member.\<close>

datatype pelem = PVal pyval | PMeta meta_type | PField field

text \<open>\<open>_enum_map[k]\<close>: an unhashable key is a \<open>TypeError\<close>; \<open>None\<close>, integers and
  \<open>Committed\<close> members are hashable but the source never files anything under them.\<close>

fun ekey_of :: "pelem \<Rightarrow> error + ekey" where
  "ekey_of (PField f) = Inr (KF f)"
| "ekey_of (PMeta m) = Inr (KM m)"
| "ekey_of (PVal (Atom (AStr s))) = Inr (KS s)"
| "ekey_of (PVal (Atom (AEntity h))) = Inr (KE h)"
| "ekey_of (PVal (Atom ANone)) = Inl KeyError"
| "ekey_of (PVal (Atom (AInt i))) = Inl KeyError"
| "ekey_of (PVal (Atom (ACommitted c))) = Inl KeyError"
| "ekey_of (PVal (PList xs)) = Inl TypeError"
| "ekey_of (PVal (PSet S)) = Inl TypeError"

definition enum_get :: "store \<Rightarrow> ekey \<Rightarrow> error + evalue" where
  "enum_get st k = (case enum_map st k of None \<Rightarrow> Inl KeyError | Some v \<Rightarrow> Inr v)"

text \<open>A value read from \<open>_enum_map\<close> used as a key again; a field configuration is a
  \<open>dict\<close> and unhashable.\<close>

fun evalue_key :: "evalue \<Rightarrow> error + ekey" where
  "evalue_key (VS s) = Inr (KS s)"
| "evalue_key (VE h) = Inr (KE h)"
| "evalue_key (VM m) = Inr (KM m)"
| "evalue_key (VC c) = Inl TypeError"

fun pelem_of :: "evalue \<Rightarrow> error + pelem" where
  "pelem_of (VS s) = Inr (PVal (Atom (AStr s)))"
| "pelem_of (VE h) = Inr (PVal (Atom (AEntity h)))"
| "pelem_of (VM m) = Inr (PMeta m)"
| "pelem_of (VC c) = Inl Unmodelled"

text \<open>The attributes of the \<open>Entity\<close> object behind a handle. A handle filed nowhere has no
  counterpart in Python; the model reports it as \<open>Unmodelled\<close>.\<close>

definition obj_of :: "store \<Rightarrow> string \<Rightarrow> error + entity" where
  "obj_of st h = (case map_of (entity_map st) h of None \<Rightarrow> Inl Unmodelled | Some (m, e) \<Rightarrow> Inr e)"

text \<open>\<open>Entity._ref\<close>, first branch (both arguments are \<open>Entity\<close> objects):
  \<open>enum_map[unit] + ":" + str(entity_id) + ":" + enum_map[meta_type].name\<close>.\<close>

definition ref_entities :: "store \<Rightarrow> string \<Rightarrow> int \<Rightarrow> string \<Rightarrow> error + string" where
  "ref_entities st u i m =
     bnd (enum_get st (KE u)) (\<lambda>uv.
       case uv of
         VS uname \<Rightarrow>
           bnd (enum_get st (KE m)) (\<lambda>mv.
             case mv of
               VM mt \<Rightarrow> Inr (uname @ '':'' @ str_int i @ '':'' @ type_name mt)
             | _ \<Rightarrow> Inl AttributeError)
       | _ \<Rightarrow> Inl TypeError)"

text \<open>\<open>Entity._ref\<close>, second branch: \<open>unit + ":" + str(entity_id) + ":" + meta_type.name\<close>
  with a \<open>FieldProps\<close> member as \<open>meta_type\<close>; anything but a string as \<open>unit\<close> is a
  \<open>TypeError\<close>.\<close>

fun ref_names :: "pelem \<Rightarrow> int \<Rightarrow> meta_type \<Rightarrow> error + string" where
  "ref_names (PVal (Atom (AStr u))) i mt = Inr (u @ '':'' @ str_int i @ '':'' @ type_name mt)"
| "ref_names p i mt = Inl TypeError"

text \<open>\<open>Entity.global_id\<close>.\<close>

definition global_id :: "store \<Rightarrow> string \<Rightarrow> error + string" where
  "global_id st h =
     bnd (obj_of st h) (\<lambda>e. ref_entities st (e_unit e) (entity_id e) (e_meta_type e))"

text \<open>\<open>Entity._resolve_global_id\<close>: the triple (unit, entity id, meta type) or
  \<open>(None, None, None)\<close>, here \<open>None\<close>. The bare \<open>except\<close> swallows the \<open>IndexError\<close> of
  \<open>parts[1]\<close> and the \<open>ValueError\<close> of \<open>int\<close>; the look-ups after it are not guarded.\<close>

definition resolve_global_id :: "store \<Rightarrow> pyval \<Rightarrow> error + (string \<times> int \<times> string) option" where
  "resolve_global_id st v =
     (case v of
        Atom (AStr s) \<Rightarrow>
          (let parts = split_colon s;
               eid = (if 1 < length parts then py_int (parts ! 1) else None)
           in case eid of
                None \<Rightarrow> Inr None
              | Some i \<Rightarrow>
                  if length parts = 3 then
                    (case enum_map st (KS (parts ! 0)) of
                       Some (VE u) \<Rightarrow>
                         bnd (obj_of st u) (\<lambda>ue.
                         bnd (enum_get st (KE (e_meta_type ue))) (\<lambda>umt.
                           if umt = VM EntityTypes_unit then
                             (case map_of (entity_map st) s of
                                None \<Rightarrow> Inl AttributeError
                              | Some (m, e) \<Rightarrow>
                                  if enum_map st (KE (e_meta_type e)) \<noteq> None
                                  then Inr (Some (u, i, e_meta_type e))
                                  else Inr None)
                           else Inr None))
                     | _ \<Rightarrow> Inr None)
                  else Inr None)
      | _ \<Rightarrow> Inr None)"

fun resolve_pelem :: "store \<Rightarrow> pelem \<Rightarrow> error + (string \<times> int \<times> string) option" where
  "resolve_pelem st (PVal v) = resolve_global_id st v"
| "resolve_pelem st p = Inr None"

section \<open>Change notifications\<close>

fun committed_name :: "Committed \<Rightarrow> string" where
  "committed_name CREATED = ''CREATED''"
| "committed_name UPDATED = ''UPDATED''"
| "committed_name DELETED = ''DELETED''"
| "committed_name SAVED = ''SAVED''"

text \<open>The rendering of the path in \<open>_create_message\<close>: an enumeration member gives its
  name, an \<open>Entity\<close> its global id, anything else is left out.\<close>

fun render_path :: "store \<Rightarrow> pelem list \<Rightarrow> error + string list" where
  "render_path st [] = Inr []"
| "render_path st (PField f # ps) = bnd (render_path st ps) (\<lambda>r. Inr (f_name f # r))"
| "render_path st (PMeta m # ps) = bnd (render_path st ps) (\<lambda>r. Inr (type_name m # r))"
| "render_path st (PVal (Atom (ACommitted c)) # ps) =
     bnd (render_path st ps) (\<lambda>r. Inr (committed_name c # r))"
| "render_path st (PVal (Atom (AEntity h)) # ps) =
     bnd (global_id st h) (\<lambda>g. bnd (render_path st ps) (\<lambda>r. Inr (g # r)))"
| "render_path st (PVal v # ps) = render_path st ps"

text \<open>\<open>_create_message\<close> as \<open>Store.access\<close> calls it (message type \<open>ENTITY_ACCESS\<close>, one
  affected id, possibly \<open>None\<close>). Nothing is sent for an entity of \<open>UNIT_MESSAGES\<close>, of
  \<open>UNIT_ENTITY\<close> or of a unit whose name ends in \<open>_meta\<close>.\<close>

definition create_message ::
    "store \<Rightarrow> Operation \<Rightarrow> pelem list \<Rightarrow> string option \<Rightarrow> error + store" where
  "create_message st op path gid =
     (if messages_create_message st \<and> op \<in> {Op_ADD, Op_SET, Op_DEL, Op_CHANGE} then
        bnd (case gid of
               None \<Rightarrow> Inr False
             | Some g \<Rightarrow>
                 bnd (resolve_global_id st (Atom (AStr g))) (\<lambda>r.
                   case r of
                     None \<Rightarrow> Inl KeyError
                   | Some (u, i, m) \<Rightarrow>
                       bnd (enum_get st (KE u)) (\<lambda>uv.
                         case uv of
                           VS uname \<Rightarrow>
                             Inr (uname = UNIT_MESSAGES st \<or> uname = UNIT_ENTITY
                                  \<or> ends_with uname ''_meta'')
                         | _ \<Rightarrow> Inl AttributeError)))
          (\<lambda>reserved.
             if reserved then Inr st
             else bnd (render_path st path) (\<lambda>r.
                    Inr (st\<lparr>messages := messages st @ [(op, r, case gid of None \<Rightarrow> [] | Some g \<Rightarrow> [g])]\<rparr>)))
      else Inr st)"


section \<open>Reading and writing one field\<close>

definition global_field_name :: "string \<Rightarrow> string \<Rightarrow> string \<Rightarrow> string" where
  "global_field_name u t f = u @ '':'' @ t @ '':'' @ f"

text \<open>\<open>Store._get_base_fields\<close>: the four qualified names of the base fields.\<close>

definition get_base_fields :: "string list" where
  "get_base_fields =
     map (\<lambda>f. global_field_name UNIT_ENTITY_META (type_name EntityTypes_entity_base) (f_name f))
       EntityBaseMeta"

definition unit_field :: string where "unit_field = get_base_fields ! 0"
definition meta_type_field :: string where "meta_type_field = get_base_fields ! 1"
definition entity_id_field :: string where "entity_id_field = get_base_fields ! 2"
definition committed_field :: string where "committed_field = get_base_fields ! 3"

text \<open>Python list indexing, negative indices counting from the end.\<close>

definition py_index :: "'a list \<Rightarrow> int \<Rightarrow> error + 'a" where
  "py_index xs i =
     (if 0 \<le> i \<and> i < int (length xs) then Inr (xs ! nat i)
      else if i < 0 \<and> - int (length xs) \<le> i then Inr (xs ! nat (int (length xs) + i))
      else Inl IndexError)"

text \<open>\<open>Store._access_data_get_value\<close>. An entity's field is looked up under the qualified
  name \<open>enum_map[key]\<close>; a stored string that resolves as a global id with a non-zero entity
  id is replaced by the entity filed under it.\<close>

definition deref :: "store \<Rightarrow> pyval \<Rightarrow> error + pyval" where
  "deref st v =
     bnd (resolve_global_id st v) (\<lambda>r.
       case r of
         None \<Rightarrow> Inr v
       | Some (u, i, m) \<Rightarrow>
           if i \<noteq> 0 then
             (case v of
                Atom (AStr s) \<Rightarrow> bnd (dict_get (entity_map st) s) (\<lambda>me. Inr (Atom (AEntity s)))
              | _ \<Rightarrow> Inr v)
           else Inr v)"

definition access_data_get_value :: "store \<Rightarrow> pyval \<Rightarrow> pelem \<Rightarrow> pyval \<Rightarrow> error + pyval" where
  "access_data_get_value st obj key default_value =
     (case obj of
        Atom (AEntity h) \<Rightarrow>
          bnd (ekey_of key) (\<lambda>k.
          bnd (enum_get st k) (\<lambda>gn.
          bnd (global_id st h) (\<lambda>g.
          bnd (dict_get (entity_map st) g) (\<lambda>me.
            case gn of
              VS global_name \<Rightarrow>
                (case map_of (fst me) global_name of
                   Some v \<Rightarrow> deref st v
                 | None \<Rightarrow> Inr default_value)
            | VC c \<Rightarrow> Inl TypeError
            | _ \<Rightarrow> Inr default_value))))
      | PList xs \<Rightarrow>
          (case key of
             PVal (Atom (AInt i)) \<Rightarrow>
               if i < int (length xs) then bnd (py_index xs i) (\<lambda>a. Inr (Atom a))
               else Inr default_value
           | _ \<Rightarrow> Inr default_value)
      | PSet S \<Rightarrow> Inl (PyException ''Not possible to request path element on sets.'')
      | _ \<Rightarrow> Inr default_value)"

text \<open>\<open>Store._access_data_create_container\<close>. For a \<open>LIST\<close> field the source returns
  \<open>e_map[global_name]\<close>, a name that is not bound there: a \<open>NameError\<close>. Every other path
  returns \<open>None\<close>, so only the new state is given back.\<close>

definition access_data_create_container :: "store \<Rightarrow> pyval \<Rightarrow> pelem \<Rightarrow> pelem \<Rightarrow> error + store" where
  "access_data_create_container st obj fld key =
     (case obj of
        Atom (AEntity h) \<Rightarrow>
          bnd (ekey_of fld) (\<lambda>k.
          bnd (enum_get st k) (\<lambda>gn.
          bnd (evalue_key gn) (\<lambda>k2.
          bnd (enum_get st k2) (\<lambda>cfg.
          bnd (global_id st h) (\<lambda>g.
          bnd (dict_get (entity_map st) g) (\<lambda>me.
            case cfg of
              VC c \<Rightarrow>
                (case gn of
                   VS global_name \<Rightarrow>
                     if c_valuetype c = SET then
                       Inr (st\<lparr>entity_map :=
                              AList.update g (AList.update global_name (PSet {}) (fst me), snd me)
                                (entity_map st)\<rparr>)
                     else if c_valuetype c = LIST then Inl NameError
                     else Inr st
                 | _ \<Rightarrow> Inl Unmodelled)
            | _ \<Rightarrow> Inl TypeError))))))
      | _ \<Rightarrow> Inr st)"

text \<open>\<open>Store._set_uncommitted\<close> on the attribute dictionary; the \<open>Entity\<close> object's own
  \<open>committed\<close> attribute is set where the dictionary is written back.\<close>

definition set_uncommitted :: "(string \<times> pyval) list \<Rightarrow> (string \<times> pyval) list" where
  "set_uncommitted e_map = AList.update committed_field (Atom (AInt 0)) e_map"

text \<open>\<open>v in old_values\<close>.\<close>

fun py_in :: "atom \<Rightarrow> pyval \<Rightarrow> error + bool" where
  "py_in a (PSet S) = Inr (a \<in> S)"
| "py_in a (PList xs) = Inr (a \<in> set xs)"
| "py_in (AStr s) (Atom (AStr t)) = Inr (py_substr s t)"
| "py_in a (Atom b) = Inl TypeError"

text \<open>\<open>value.global_id in e_map[g]\<close>: the bound method itself, not its result, is looked
  for. It is in no list and no set; any other container is a \<open>TypeError\<close>.\<close>

fun method_in :: "pyval \<Rightarrow> error + bool" where
  "method_in (PSet S) = Inr False"
| "method_in (PList xs) = Inr False"
| "method_in (Atom b) = Inl TypeError"

text \<open>\<open>e_map[g] += value\<close>. Extending a list by a set iterates the set in hash order, which
  the model does not fix.\<close>

fun py_iadd :: "pyval \<Rightarrow> pyval \<Rightarrow> error + pyval" where
  "py_iadd (Atom (AInt a)) (Atom (AInt b)) = Inr (Atom (AInt (a + b)))"
| "py_iadd (Atom (AStr s)) (Atom (AStr t)) = Inr (Atom (AStr (s @ t)))"
| "py_iadd (PList xs) (PList ys) = Inr (PList (xs @ ys))"
| "py_iadd (PList xs) (Atom (AStr t)) = Inr (PList (xs @ map (\<lambda>c. AStr [c]) t))"
| "py_iadd (PList xs) (PSet S) = Inl Unmodelled"
| "py_iadd v w = Inl TypeError"

text \<open>The loop of the bulk branch: \<open>all_included = v in old_values\<close>, left at the first
  element that is not included.\<close>

fun all_included :: "atom list \<Rightarrow> pyval \<Rightarrow> error + bool" where
  "all_included [] old_values = Inr True"
| "all_included (v # vs) old_values =
     bnd (py_in v old_values) (\<lambda>b. if b then all_included vs old_values else Inr False)"

text \<open>\<open>e_map.setdefault(g, []).append(a)\<close>, \<open>e_map.setdefault(g, set()).add(a)\<close> and
  \<open>e_map.setdefault(g, set()).update(vs)\<close>.\<close>

definition setdefault_append :: "(string \<times> pyval) list \<Rightarrow> string \<Rightarrow> atom \<Rightarrow> error + (string \<times> pyval) list" where
  "setdefault_append e_map g a =
     (case map_of e_map g of
        None \<Rightarrow> Inr (AList.update g (PList [a]) e_map)
      | Some (PList xs) \<Rightarrow> Inr (AList.update g (PList (xs @ [a])) e_map)
      | Some v \<Rightarrow> Inl AttributeError)"

definition setdefault_update :: "(string \<times> pyval) list \<Rightarrow> string \<Rightarrow> atom set \<Rightarrow> error + (string \<times> pyval) list" where
  "setdefault_update e_map g A =
     (case map_of e_map g of
        None \<Rightarrow> Inr (AList.update g (PSet A) e_map)
      | Some (PSet S) \<Rightarrow> Inr (AList.update g (PSet (S \<union> A)) e_map)
      | Some v \<Rightarrow> Inl AttributeError)"

definition dict_get_default :: "(string \<times> pyval) list \<Rightarrow> string \<Rightarrow> pyval" where
  "dict_get_default e_map g = (case map_of e_map g of None \<Rightarrow> Atom ANone | Some v \<Rightarrow> v)"

text \<open>The body of \<open>Store._access_data_set_value\<close> on the attribute dictionary of the
  entity: the new dictionary, \<open>changed\<close> and the value handed back. \<open>changed\<close> is true
  exactly when \<open>_set_uncommitted\<close> ran.\<close>

fun is_list :: "pyval \<Rightarrow> bool" where
  "is_list (PList xs) = True"
| "is_list v = False"

fun is_set :: "pyval \<Rightarrow> bool" where
  "is_set (PSet S) = True"
| "is_set v = False"

text \<open>\<open>isinstance(value, Entity)\<close>, giving the handle.\<close>

fun entity_of :: "pyval \<Rightarrow> string option" where
  "entity_of (Atom (AEntity h)) = Some h"
| "entity_of v = None"

definition set_value_body ::
    "store \<Rightarrow> field \<Rightarrow> string \<Rightarrow> pyval \<Rightarrow> Operation \<Rightarrow> (string \<times> pyval) list
      \<Rightarrow> error + ((string \<times> pyval) list \<times> bool \<times> pyval)" where
  "set_value_body st fld g v operation e_map =
     (case (if f_datatype fld = D_ENTITY then entity_of v else None) of
        Some h \<Rightarrow>
          if f_valuetype fld = LIST then
            (case map_of (set_uncommitted e_map) g of
               Some (Atom b) \<Rightarrow> Inl AttributeError
             | Some (PSet S) \<Rightarrow> Inl AttributeError
             | _ \<Rightarrow>
               bnd (global_id st h) (\<lambda>vg.
               bnd (setdefault_append (set_uncommitted e_map) g (AStr vg)) (\<lambda>m. Inr (m, True, v))))
          else if f_valuetype fld = SET then
            bnd (case map_of e_map g of None \<Rightarrow> Inr True
                 | Some old \<Rightarrow> bnd (method_in old) (\<lambda>b. Inr (\<not> b))) (\<lambda>go.
              if go then
                (case map_of e_map g of
                   Some (Atom b) \<Rightarrow> Inl AttributeError
                 | Some (PList xs) \<Rightarrow> Inl AttributeError
                 | _ \<Rightarrow>
                   bnd (global_id st h) (\<lambda>vg.
                   bnd (setdefault_update e_map g {AStr vg}) (\<lambda>m.
                     Inr (set_uncommitted m, True, v))))
              else Inr (e_map, False, v))
          else
            if dict_get_default e_map g \<noteq> v then
              bnd (global_id st h) (\<lambda>vg.
                Inr (set_uncommitted (AList.update g (Atom (AStr vg)) e_map), True, v))
            else Inr (e_map, False, v)
      | None \<Rightarrow>
          if f_valuetype fld = LIST \<and> \<not> is_list v then
            (case v of
               Atom a \<Rightarrow>
                 bnd (setdefault_append (set_uncommitted e_map) g a) (\<lambda>m. Inr (m, True, v))
             | _ \<Rightarrow> Inl Unmodelled)
          else if f_valuetype fld = SET \<and> \<not> is_set v then
            (case v of
               PList vs \<Rightarrow>
                 bnd (case map_of e_map g of None \<Rightarrow> Inr False
                      | Some old_values \<Rightarrow> all_included vs old_values) (\<lambda>inc.
                   if \<not> inc then
                     bnd (setdefault_update e_map g (set vs)) (\<lambda>m.
                       Inr (set_uncommitted m, True, v))
                   else Inr (e_map, False, v))
             | Atom a \<Rightarrow>
                 bnd (case map_of e_map g of None \<Rightarrow> Inr True
                      | Some old \<Rightarrow> bnd (py_in a old) (\<lambda>b. Inr (\<not> b))) (\<lambda>go.
                   if go then
                     bnd (setdefault_update e_map g {a}) (\<lambda>m.
                       Inr (set_uncommitted m, True, v))
                   else Inr (e_map, False, v))
             | _ \<Rightarrow> Inl Unmodelled)
          else
            if operation = Op_CHANGE then
              bnd (dict_get e_map g) (\<lambda>old.
              bnd (py_iadd old v) (\<lambda>new.
                Inr (set_uncommitted (AList.update g new e_map), True, new)))
            else
              if dict_get_default e_map g \<noteq> v then
                Inr (set_uncommitted (AList.update g v e_map), True, v)
              else Inr (e_map, False, v))"

text \<open>\<open>Store._access_data_set_value\<close>: \<open>(changed, value)\<close> and the new state. Anything
  but an \<open>Entity\<close> as \<open>obj\<close> gives \<open>(False, None)\<close>.\<close>

definition access_data_set_value ::
    "store \<Rightarrow> pyval \<Rightarrow> pelem \<Rightarrow> pyval \<Rightarrow> Operation \<Rightarrow> error + (store \<times> bool \<times> pyval)" where
  "access_data_set_value st obj fld v operation =
     (case obj of
        Atom (AEntity h) \<Rightarrow>
          bnd (global_id st h) (\<lambda>g.
          bnd (dict_get (entity_map st) g) (\<lambda>me.
          bnd (ekey_of fld) (\<lambda>k.
          bnd (enum_get st k) (\<lambda>gn.
          bnd (evalue_key gn) (\<lambda>k2.
          bnd (enum_get st k2) (\<lambda>cfg.
            case fld of
              PField f \<Rightarrow>
                (case gn of
                   VS global_name \<Rightarrow>
                     bnd (set_value_body st f global_name v operation (fst me)) (\<lambda>(m, changed, rv).
                       Inr (st\<lparr>entity_map :=
                              AList.update g
                                (m, if changed then (snd me)\<lparr>committed := AInt 0\<rparr> else snd me)
                                (entity_map st)\<rparr>,
                            changed, rv))
                 | _ \<Rightarrow> Inl Unmodelled)
            | _ \<Rightarrow> Inl AttributeError))))))
      | _ \<Rightarrow> Inr (st, False, Atom ANone))"


section \<open>Creating entities\<close>

text \<open>\<open>Store._add_entity_to_store\<close> for \<open>Entity(unit, entity_id, meta_type)\<close>: the right-hand
  side (the two global ids of unit and meta type) is evaluated before the key. The new
  object's handle is the key it is filed under.\<close>

definition add_entity_to_store :: "store \<Rightarrow> string \<Rightarrow> int \<Rightarrow> string \<Rightarrow> error + (store \<times> string)" where
  "add_entity_to_store st u i mh =
     bnd (global_id st u) (\<lambda>ug.
     bnd (global_id st mh) (\<lambda>mg.
     bnd (ref_entities st u i mh) (\<lambda>key.
       Inr (st\<lparr>entity_map :=
              AList.update key
                ([(unit_field, Atom (AStr ug)), (entity_id_field, Atom (AInt i)),
                  (meta_type_field, Atom (AStr mg)), (committed_field, Atom (AInt 0))],
                 Entity u i mh)
                (entity_map st)\<rparr>,
            key))))"

text \<open>\<open>Store._create_entity(unit, entity_id, meta_type)\<close> as \<open>Store.access\<close> calls it: \<open>unit\<close>
  is a string and \<open>meta_type\<close> a \<open>FieldProps\<close> member, both replaced by what \<open>_enum_map\<close>
  holds for them. When these are not two \<open>Entity\<close> objects the source fails in
  \<open>_add_entity_to_store\<close> or in the \<open>global_id()\<close> that follows, except where it hands
  back an \<open>Entity\<close> that is filed nowhere (\<open>Unmodelled\<close>).\<close>

definition create_entity :: "store \<Rightarrow> string \<Rightarrow> int \<Rightarrow> meta_type \<Rightarrow> error + (store \<times> string)" where
  "create_entity st uname i mt =
     bnd (if uname = [] then Inr (VS []) else enum_get st (KS uname)) (\<lambda>uv.
     bnd (enum_get st (KM mt)) (\<lambda>mv.
       case uv of
         VE u \<Rightarrow>
           (case mv of
              VE mh \<Rightarrow> add_entity_to_store st u i mh
            | VS [] \<Rightarrow> Inl TypeError
            | _ \<Rightarrow> Inl AttributeError)
       | VS [] \<Rightarrow> (case mv of VM m \<Rightarrow> Inl Unmodelled | _ \<Rightarrow> Inl AttributeError)
       | VS s \<Rightarrow> Inl AttributeError
       | _ \<Rightarrow> (case mv of VS [] \<Rightarrow> Inl TypeError | _ \<Rightarrow> Inl AttributeError)))"

section \<open>\<open>Store.access\<close>\<close>

text \<open>The loop over the remaining path. Its state: \<open>last_obj\<close>, \<open>parent\<close>,
  \<open>last_global_id\<close> and \<open>last_entity_path\<close>; \<open>i\<close> is \<open>last_idx\<close> and \<open>prev\<close> is
  \<open>remaining_path[last_idx - 1]\<close>.\<close>

fun walk ::
    "store \<Rightarrow> pelem list \<Rightarrow> nat \<Rightarrow> pelem \<Rightarrow> pelem list \<Rightarrow> pyval \<Rightarrow> pyval \<Rightarrow> string option \<Rightarrow> pelem list
      \<Rightarrow> error + (store \<times> pyval \<times> pyval \<times> string option \<times> pelem list)" where
  "walk st path i prev [] last_obj parent lgid lep = Inr (st, last_obj, parent, lgid, lep)"
| "walk st path i prev (key # keys) last_obj parent lgid lep =
     bnd (if last_obj = Atom ANone then
            bnd (access_data_create_container st parent prev key) (\<lambda>st1. Inr (st1, lgid, lep))
          else
            (case last_obj of
               Atom (AEntity h) \<Rightarrow> bnd (global_id st h) (\<lambda>g. Inr (st, Some g, drop i path))
             | _ \<Rightarrow> Inr (st, lgid, lep))) (\<lambda>(st1, lgid1, lep1).
     bnd (case last_obj of Atom (AStr s) \<Rightarrow> deref st1 last_obj | _ \<Rightarrow> Inr last_obj) (\<lambda>parent1.
     bnd (access_data_get_value st1 parent1 key (Atom ANone)) (\<lambda>last_obj1.
       walk st1 path (Suc i) key keys last_obj1 parent1 lgid1 lep1)))"

text \<open>The head of \<open>Store.access\<close>: \<open>local_ref\<close>, \<open>entity_id\<close> and \<open>idx\<close>. \<open>inc\<close> is
  \<open>Store.increment_unit_counter\<close>, called when the id is omitted.\<close>

definition locate ::
    "(store \<Rightarrow> pelem \<Rightarrow> error + (store \<times> int)) \<Rightarrow> store \<Rightarrow> pelem list
      \<Rightarrow> error + (store \<times> string option \<times> int option \<times> nat)" where
  "locate inc st path =
     (case path of
        [] \<Rightarrow> Inr (st, None, None, 0)
      | p0 # rest \<Rightarrow>
          bnd (resolve_pelem st p0) (\<lambda>r.
            case r of
              Some (u, i, m) \<Rightarrow>
                (case p0 of
                   PVal (Atom (AStr s)) \<Rightarrow> Inr (st, Some s, Some i, 1)
                 | _ \<Rightarrow> Inl Unmodelled)
            | None \<Rightarrow>
                (case rest of
                   PVal (Atom ANone) # PMeta mt # rest' \<Rightarrow>
                     bnd (inc st p0) (\<lambda>(st1, i).
                     bnd (ref_names p0 i mt) (\<lambda>lr. Inr (st1, Some lr, Some i, 3)))
                 | PVal (Atom (AInt i)) # PMeta mt # rest' \<Rightarrow>
                     bnd (ref_names p0 i mt) (\<lambda>lr. Inr (st, Some lr, Some i, 3))
                 | _ \<Rightarrow> Inr (st, None, None, 0))))"

definition access_gen ::
    "(store \<Rightarrow> pelem \<Rightarrow> error + (store \<times> int)) \<Rightarrow> store \<Rightarrow> Operation \<Rightarrow> pyval \<Rightarrow> pelem list
      \<Rightarrow> error + (store \<times> pyval)" where
  "access_gen inc st operation v path =
     bnd (locate inc st path) (\<lambda>(st1, local_ref, eid, idx).
     bnd (case local_ref of
            None \<Rightarrow> Inr (st1, None, None)
          | Some lr \<Rightarrow>
              (case map_of (entity_map st1) lr of
                 None \<Rightarrow>
                   (case (path, eid) of
                      (PVal (Atom (AStr un)) # p1 # PMeta mt # rest, Some i) \<Rightarrow>
                        bnd (create_entity st1 un i mt) (\<lambda>(st2, h).
                        bnd (global_id st2 h) (\<lambda>g. Inr (st2, Some h, Some g)))
                    | _ \<Rightarrow> Inl Unmodelled)
               | Some me \<Rightarrow> bnd (global_id st1 lr) (\<lambda>g. Inr (st1, Some lr, Some g))))
       (\<lambda>(st2, last_obj, last_global_id).
          let remaining_path = drop idx path in
          case (last_obj, remaining_path) of
            (Some h, []) \<Rightarrow>
              bnd (create_message st2 operation [] last_global_id) (\<lambda>st3.
                Inr (st3, Atom (AEntity h)))
          | _ \<Rightarrow>
              (let lo = (case last_obj of
                           None \<Rightarrow> PList (map (\<lambda>ke. AEntity (fst ke)) (entity_map st2))
                         | Some h \<Rightarrow> Atom (AEntity h))
               in bnd (walk st2 path 0 (last remaining_path) remaining_path lo lo last_global_id [])
                    (\<lambda>(st3, last_obj1, parent, lgid, lep).
                       if operation = Op_SET \<or> operation = Op_ADD \<or> operation = Op_CHANGE then
                         (if remaining_path = [] then Inl NameError
                          else
                            bnd (access_data_set_value st3 parent (last remaining_path) v operation)
                              (\<lambda>(st4, changed, rv).
                                 if changed then
                                   bnd (create_message st4 operation lep lgid) (\<lambda>st5. Inr (st5, rv))
                                 else Inr (st4, rv)))
                       else if operation = Op_GET \<or> operation = Op_VISIT then Inr (st3, last_obj1)
                       else Inr (st3, Atom ANone)))))"

text \<open>\<open>Entity.access\<close>: the entity's own locator
  \<open>(enum_map[self.unit], self.entity_id, enum_map[self.meta_type])\<close> in front of the path.\<close>

definition Entity_access_gen ::
    "(store \<Rightarrow> pelem \<Rightarrow> error + (store \<times> int)) \<Rightarrow> store \<Rightarrow> string \<Rightarrow> Operation \<Rightarrow> pyval \<Rightarrow> pelem list
      \<Rightarrow> error + (store \<times> pyval)" where
  "Entity_access_gen inc st h operation v path =
     bnd (obj_of st h) (\<lambda>e.
     bnd (enum_get st (KE (e_unit e))) (\<lambda>uv.
     bnd (pelem_of uv) (\<lambda>p0.
     bnd (enum_get st (KE (e_meta_type e))) (\<lambda>mv.
     bnd (pelem_of mv) (\<lambda>p2.
       access_gen inc st operation v (p0 # PVal (Atom (AInt (entity_id e))) # p2 # path))))))"

text \<open>\<open>Store.increment_unit_counter\<close>: \<open>CHANGE\<close> by one on the unit's \<open>id_cnt\<close>. The call
  of \<open>access\<close> inside carries the unit's own integer id, so it never comes back here; the
  counter it is given is not called.\<close>

definition increment_unit_counter :: "store \<Rightarrow> pelem \<Rightarrow> error + (store \<times> int)" where
  "increment_unit_counter st p0 =
     bnd (ekey_of p0) (\<lambda>k.
     bnd (enum_get st k) (\<lambda>uv.
       case uv of
         VE u \<Rightarrow>
           bnd (Entity_access_gen (\<lambda>s p. Inl Unmodelled) st u Op_CHANGE (Atom (AInt 1))
                  [PField UnitMeta_id_cnt]) (\<lambda>(st1, rv).
             case rv of Atom (AInt i) \<Rightarrow> Inr (st1, i) | _ \<Rightarrow> Inl Unmodelled)
       | _ \<Rightarrow> Inl AttributeError))"

definition access :: "store \<Rightarrow> Operation \<Rightarrow> pyval \<Rightarrow> pelem list \<Rightarrow> error + (store \<times> pyval)" where
  "access = access_gen increment_unit_counter"

definition Entity_access ::
    "store \<Rightarrow> string \<Rightarrow> Operation \<Rightarrow> pyval \<Rightarrow> pelem list \<Rightarrow> error + (store \<times> pyval)" where
  "Entity_access = Entity_access_gen increment_unit_counter"

section \<open>The SQL persistence engine (dust/persist/sqlpersist.py)\<close>

subsection \<open>Tables\<close>

record SqlField =
  field_name :: string
  field_type :: string
  primary_key :: bool
  base_field :: bool

record SqlTable =
  table_name :: string
  t_fields :: "SqlField list"
  primary_keys :: "SqlField list"

definition new_SqlTable :: "string \<Rightarrow> SqlTable" where
  "new_SqlTable n = \<lparr>table_name = n, t_fields = [], primary_keys = []\<rparr>"

definition add_field :: "SqlTable \<Rightarrow> string \<Rightarrow> string \<Rightarrow> bool \<Rightarrow> bool \<Rightarrow> SqlTable" where
  "add_field t n ty pk bf =
     (let fld = \<lparr>field_name = n, field_type = ty, primary_key = pk, base_field = bf\<rparr>
      in t\<lparr>t_fields := t_fields t @ [fld],
           primary_keys := (if pk then primary_keys t @ [fld] else primary_keys t)\<rparr>)"

text \<open>\<open>SQL_TYPE_MAP\<close> and \<open>sql_type\<close> of the MySQL adapter (dust/persist/mysqlpersist.py).\<close>

fun SQL_TYPE_MAP :: "Datatypes \<Rightarrow> string" where
  "SQL_TYPE_MAP D_INT = ''INT''"
| "SQL_TYPE_MAP D_NUMERIC = ''DOUBLE''"
| "SQL_TYPE_MAP D_BOOL = ''TINYINT''"
| "SQL_TYPE_MAP D_STRING = ''TEXT''"
| "SQL_TYPE_MAP D_BYTES = ''BLOB''"
| "SQL_TYPE_MAP D_JSON = ''TEXT''"
| "SQL_TYPE_MAP D_ENTITY = ''TEXT''"

definition sql_type :: "Datatypes \<Rightarrow> ValueTypes \<Rightarrow> bool \<Rightarrow> string" where
  "sql_type d v pk =
     (if pk \<and> d = D_STRING then ''VARCHAR(100)''
      else if v = SINGLE then SQL_TYPE_MAP d
      else ''TEXT'')"

definition is_multi :: "field \<Rightarrow> bool" where
  "is_multi f = (f_valuetype f = LIST \<or> f_valuetype f = SET)"

text \<open>\<open>SqlPersist.__sql_tables\<close>: the primary table first, then one auxiliary table per
  \<open>LIST\<close> or \<open>SET\<close> field, in the order of the fields.\<close>

definition primary_table :: "string \<Rightarrow> field list \<Rightarrow> SqlTable" where
  "primary_table tn fs =
     foldl (\<lambda>t f. add_field t (''_'' @ f_name f) (sql_type (f_datatype f) (f_valuetype f) False) False False)
       (foldl (\<lambda>t b. add_field t (''_'' @ f_name b) (sql_type (f_datatype b) (f_valuetype b) False) False True)
          (add_field (new_SqlTable tn) ''_global_id'' (sql_type D_STRING SINGLE True) True True)
          (filter (\<lambda>b. b \<noteq> EntityBaseMeta_committed) (fields_enum EntityTypes_entity_base)))
       (filter (\<lambda>f. \<not> is_multi f) fs)"

definition multivalue_table :: "string \<Rightarrow> field \<Rightarrow> SqlTable" where
  "multivalue_table tn f =
     add_field
       (add_field
          (add_field (new_SqlTable (tn @ ''_'' @ f_name f))
             ''_global_id'' (sql_type D_STRING SINGLE True) True True)
          ''_value_cnt'' (sql_type D_INT SINGLE False) True True)
       (''_'' @ f_name f @ ''_value'') (sql_type (f_datatype f) SINGLE False) False False"

definition sql_tables :: "string \<Rightarrow> field list \<Rightarrow> SqlTable list" where
  "sql_tables tn fs = primary_table tn fs # map (multivalue_table tn) (filter is_multi fs)"

subsection \<open>The backend\<close>

text \<open>The database behind the connection: for every table that exists its rows, each row
  the values of the table's columns in their order. The four statements are what the
  templates of dust/persist/mysqlpersist.py render: \<open>INSERT\<close> of all columns from named
  parameters, \<open>DELETE ... WHERE _global_id = %(_global_id)s\<close>, \<open>UPDATE\<close> of the columns
  that are neither key nor base field \<open>WHERE\<close> the key columns match, and \<open>SELECT\<close> of
  all columns. A failing statement is \<open>SqlError\<close> and leaves the database as it was.\<close>

type_synonym db = "atom list list dict"

type_synonym params = "pyval dict"

fun db_value :: "pyval \<Rightarrow> error + atom" where
  "db_value (Atom ANone) = Inr ANone"
| "db_value (Atom (AInt i)) = Inr (AInt i)"
| "db_value (Atom (AStr s)) = Inr (AStr s)"
| "db_value v = Inl SqlError"

fun row_of_params :: "SqlField list \<Rightarrow> params \<Rightarrow> error + atom list" where
  "row_of_params [] ps = Inr []"
| "row_of_params (f # fs) ps =
     (case map_of ps (field_name f) of
        None \<Rightarrow> Inl SqlError
      | Some v \<Rightarrow> bnd (db_value v) (\<lambda>a. bnd (row_of_params fs ps) (\<lambda>r. Inr (a # r))))"

definition key_of :: "SqlTable \<Rightarrow> atom list \<Rightarrow> atom list" where
  "key_of t row = map snd (filter (\<lambda>fa. primary_key (fst fa)) (zip (t_fields t) row))"

definition column :: "SqlTable \<Rightarrow> string \<Rightarrow> atom list \<Rightarrow> atom option" where
  "column t n row = map_of (zip (map field_name (t_fields t)) row) n"

definition exec_insert :: "db \<Rightarrow> SqlTable \<Rightarrow> params \<Rightarrow> error + db" where
  "exec_insert d t ps =
     (case map_of d (table_name t) of
        None \<Rightarrow> Inl SqlError
      | Some rows \<Rightarrow>
          bnd (row_of_params (t_fields t) ps) (\<lambda>row.
            if key_of t row \<in> set (map (key_of t) rows) then Inl SqlError
            else Inr (AList.update (table_name t) (rows @ [row]) d)))"

definition exec_delete :: "db \<Rightarrow> SqlTable \<Rightarrow> params \<Rightarrow> error + db" where
  "exec_delete d t ps =
     (case map_of d (table_name t) of
        None \<Rightarrow> Inl SqlError
      | Some rows \<Rightarrow>
          (case map_of ps ''_global_id'' of
             None \<Rightarrow> Inl SqlError
           | Some v \<Rightarrow>
               bnd (db_value v) (\<lambda>a.
                 Inr (AList.update (table_name t)
                        (filter (\<lambda>row. a = ANone \<or> column t ''_global_id'' row \<noteq> Some a) rows) d))))"

definition settable :: "SqlTable \<Rightarrow> SqlField list" where
  "settable t = filter (\<lambda>f. \<not> primary_key f \<and> \<not> base_field f) (t_fields t)"

fun set_columns :: "SqlField list \<Rightarrow> atom list \<Rightarrow> atom dict \<Rightarrow> atom list" where
  "set_columns (f # fs) (a # r) new =
     (case map_of new (field_name f) of None \<Rightarrow> a | Some b \<Rightarrow> b) # set_columns fs r new"
| "set_columns fs r new = r"

definition exec_update :: "db \<Rightarrow> SqlTable \<Rightarrow> params \<Rightarrow> error + db" where
  "exec_update d t ps =
     (case map_of d (table_name t) of
        None \<Rightarrow> Inl SqlError
      | Some rows \<Rightarrow>
          if settable t = [] then Inl SqlError
          else
            bnd (row_of_params (settable t) ps) (\<lambda>new.
            bnd (row_of_params (primary_keys t) ps) (\<lambda>key.
              Inr (AList.update (table_name t)
                     (map (\<lambda>row. if key_of t row = key \<and> ANone \<notin> set key
                                  then set_columns (t_fields t) row (zip (map field_name (settable t)) new)
                                  else row) rows) d))))"

definition exec_select :: "db \<Rightarrow> SqlTable \<Rightarrow> error + atom list list" where
  "exec_select d t = (case map_of d (table_name t) of None \<Rightarrow> Inl SqlError | Some rows \<Rightarrow> Inr rows)"

text \<open>\<open>CREATE TABLE IF NOT EXISTS\<close>.\<close>

definition exec_create :: "db \<Rightarrow> SqlTable \<Rightarrow> db" where
  "exec_create d t =
     (case map_of d (table_name t) of None \<Rightarrow> AList.update (table_name t) [] d | Some rows \<Rightarrow> d)"

subsection \<open>The persister\<close>

text \<open>The two private attributes of a \<open>SqlPersist\<close> object.\<close>

record persister =
  persisted_types :: "meta_type set"
  unit_meta_unit :: "meta_type \<rightharpoonup> string"

text \<open>What the engine uses and the sources do not define: \<open>Entity.set_committed\<close>, called
  by sqlpersist.py and defined by no class of dust/entity.py, and the order in which
  Python iterates a set.\<close>

record runtime =
  set_committed :: "store \<Rightarrow> string \<Rightarrow> error + store"
  iter_set :: "atom set \<Rightarrow> atom list"

text \<open>\<open>SqlPersist.__table_name\<close>.\<close>

definition table_name_of :: "persister \<Rightarrow> meta_type \<Rightarrow> error + string" where
  "table_name_of ps um =
     (case unit_meta_unit ps um of
        None \<Rightarrow> Inl KeyError
      | Some u \<Rightarrow> Inr (u @ ''_'' @ type_name um))"

text \<open>\<open>convert_value_to_db\<close> and \<open>convert_value_from_db\<close> of the MySQL adapter.\<close>

definition convert_atom_to_db :: "store \<Rightarrow> field \<Rightarrow> atom \<Rightarrow> error + atom" where
  "convert_atom_to_db st f a =
     (if f_datatype f = D_BOOL then Inr (AInt (if a = AInt 1 then 1 else 0))
      else case a of
             AEntity h \<Rightarrow>
               if f_datatype f = D_ENTITY then bnd (global_id st h) (\<lambda>g. Inr (AStr g)) else Inr a
           | _ \<Rightarrow> Inr a)"

definition convert_value_to_db :: "store \<Rightarrow> field \<Rightarrow> pyval \<Rightarrow> error + pyval" where
  "convert_value_to_db st f v =
     (case v of
        Atom a \<Rightarrow> bnd (convert_atom_to_db st f a) (\<lambda>b. Inr (Atom b))
      | _ \<Rightarrow> if f_datatype f = D_BOOL then Inr (Atom (AInt 0)) else Inr v)"

definition convert_value_from_db :: "field \<Rightarrow> atom \<Rightarrow> atom" where
  "convert_value_from_db f a =
     (if f_datatype f = D_BOOL then AInt (if a = AInt 1 then 1 else 0) else a)"

fun map_err :: "('a \<Rightarrow> error + 'b) \<Rightarrow> 'a list \<Rightarrow> error + 'b list" where
  "map_err g [] = Inr []"
| "map_err g (x # xs) = bnd (g x) (\<lambda>y. bnd (map_err g xs) (\<lambda>ys. Inr (y # ys)))"

text \<open>\<open>SqlPersist.map_value_to_db\<close>: the field is read with \<open>GET\<close>; \<open>None\<close> stays \<open>None\<close>, a
  \<open>SET\<close> or \<open>LIST\<close> field gives the list of its converted elements. \<open>json.dumps\<close> of a
  \<open>MAP\<close> field is outside the model.\<close>

definition map_value_to_db :: "runtime \<Rightarrow> store \<Rightarrow> field \<Rightarrow> string \<Rightarrow> error + (store \<times> pyval)" where
  "map_value_to_db rt st f h =
     bnd (Entity_access st h Op_GET (Atom ANone) [PField f]) (\<lambda>(st1, v).
       if v = Atom ANone then Inr (st1, Atom ANone)
       else if f_valuetype f = SINGLE then
         bnd (convert_value_to_db st1 f v) (\<lambda>w. Inr (st1, w))
       else if f_valuetype f = SET \<or> f_valuetype f = LIST then
         bnd (case v of
                PList xs \<Rightarrow> Inr xs
              | PSet S \<Rightarrow> Inr (iter_set rt S)
              | Atom (AStr s) \<Rightarrow> Inr (map (\<lambda>c. AStr [c]) s)
              | Atom a \<Rightarrow> Inl TypeError) (\<lambda>xs.
         bnd (map_err (convert_atom_to_db st1 f) xs) (\<lambda>ys. Inr (st1, PList ys)))
       else Inl Unmodelled)"

text \<open>\<open>SqlPersist.map_value_from_db\<close>; \<open>json.loads\<close> of a \<open>MAP\<close> column is outside the
  model.\<close>

definition map_value_from_db :: "field \<Rightarrow> atom \<Rightarrow> error + atom" where
  "map_value_from_db f a =
     (if a = ANone then Inr ANone
      else if f_valuetype f = MAP then Inl Unmodelled
      else Inr (convert_value_from_db f a))"

text \<open>The loop over the fields in \<open>insert_entity\<close> and \<open>update_entity\<close>: the named
  parameters of the primary row and, per auxiliary table, the field name and its values.\<close>

fun collect_values ::
    "runtime \<Rightarrow> store \<Rightarrow> string \<Rightarrow> string \<Rightarrow> field list \<Rightarrow> params \<Rightarrow> (string \<times> pyval) dict
      \<Rightarrow> error + (store \<times> params \<times> (string \<times> pyval) dict)" where
  "collect_values rt st h tn [] vals mvs = Inr (st, vals, mvs)"
| "collect_values rt st h tn (f # fs) vals mvs =
     bnd (map_value_to_db rt st f h) (\<lambda>(st1, v).
       if \<not> is_multi f then
         collect_values rt st1 h tn fs (AList.update (''_'' @ f_name f) v vals) mvs
       else
         collect_values rt st1 h tn fs vals (AList.update (tn @ ''_'' @ f_name f) (f_name f, v) mvs))"

text \<open>The inner loop of \<open>__update_entity_multivalues\<close>: one \<open>INSERT\<close> per element,
  \<open>_value_cnt\<close> counting from \<open>cnt\<close>. The database is given back also when a statement
  fails: the statements before it stay executed.\<close>

fun insert_values ::
    "db \<Rightarrow> SqlTable \<Rightarrow> string \<Rightarrow> string \<Rightarrow> nat \<Rightarrow> atom list \<Rightarrow> db \<times> (error + bool)" where
  "insert_values d t gid fn cnt [] = (d, Inr True)"
| "insert_values d t gid fn cnt (v # vs) =
     (case exec_insert d t
             [(''_global_id'', Atom (AStr gid)), (''_value_cnt'', Atom (AInt (int cnt))),
              (''_'' @ fn @ ''_value'', Atom v)] of
        Inl e \<Rightarrow> (d, Inl e)
      | Inr d1 \<Rightarrow> insert_values d1 t gid fn (Suc cnt) vs)"

text \<open>\<open>SqlPersist.__update_entity_multivalues\<close> over \<open>sql_tables[1:]\<close>.\<close>

fun multivalues_loop ::
    "db \<Rightarrow> string \<Rightarrow> SqlTable list \<Rightarrow> (string \<times> pyval) dict \<Rightarrow> bool \<Rightarrow> db \<times> (error + bool)" where
  "multivalues_loop d gid [] mvs need_delete = (d, Inr True)"
| "multivalues_loop d gid (t # ts) mvs need_delete =
     (case (if need_delete then exec_delete d t [(''_global_id'', Atom (AStr gid))] else Inr d) of
        Inl e \<Rightarrow> (d, Inl e)
      | Inr d1 \<Rightarrow>
          (case map_of mvs (table_name t) of
             None \<Rightarrow> (d1, Inl KeyError)
           | Some (fn, arr) \<Rightarrow>
               (case arr of
                  PList vs \<Rightarrow>
                    (case insert_values d1 t gid fn 0 vs of
                       (d2, Inl e) \<Rightarrow> (d2, Inl e)
                     | (d2, Inr b) \<Rightarrow> multivalues_loop d2 gid ts mvs need_delete)
                | Atom ANone \<Rightarrow> multivalues_loop d1 gid ts mvs need_delete
                | _ \<Rightarrow> (d1, Inl Unmodelled))))"

definition update_entity_multivalues ::
    "db \<Rightarrow> string \<Rightarrow> SqlTable list \<Rightarrow> (string \<times> pyval) dict \<Rightarrow> bool \<Rightarrow> db \<times> (error + bool)" where
  "update_entity_multivalues d gid tables mvs need_delete =
     multivalues_loop d gid (tl tables) mvs need_delete"

text \<open>\<open>Entity.get_meta_type_enum\<close>: \<open>_enum_map[self.meta_type]\<close>.\<close>

definition get_meta_type_enum :: "store \<Rightarrow> string \<Rightarrow> error + evalue" where
  "get_meta_type_enum st h = bnd (obj_of st h) (\<lambda>e. enum_get st (KE (e_meta_type e)))"

text \<open>The result of a call that writes to the database and to the store: both states, also
  when the call ends in an exception, and the value or the exception.\<close>

type_synonym 'a outcome = "db \<times> store \<times> (error + 'a)"

text \<open>What \<open>insert_entity\<close> and \<open>update_entity\<close> do before the first statement: the type,
  the tables, the entity's global id and the values of its fields.\<close>

definition prepare ::
    "runtime \<Rightarrow> persister \<Rightarrow> store \<Rightarrow> string \<Rightarrow> meta_type \<Rightarrow> bool
      \<Rightarrow> error + (store \<times> SqlTable list \<times> string \<times> params \<times> (string \<times> pyval) dict)" where
  "prepare rt ps st h mt with_base =
     bnd (table_name_of ps mt) (\<lambda>tn.
     bnd (global_id st h) (\<lambda>gid.
     bnd (if with_base then
            bnd (obj_of st h) (\<lambda>e.
            bnd (global_id st (e_unit e)) (\<lambda>ug.
            bnd (global_id st (e_meta_type e)) (\<lambda>mg.
              Inr [(''_global_id'', Atom (AStr gid)), (''_unit'', Atom (AStr ug)),
                   (''_meta_type'', Atom (AStr mg)), (''_entity_id'', Atom (AInt (entity_id e)))])))
          else Inr [(''_global_id'', Atom (AStr gid))]) (\<lambda>vals.
     bnd (collect_values rt st h tn (fields_enum mt) vals []) (\<lambda>(st1, vals1, mvs).
       Inr (st1, sql_tables tn (fields_enum mt), gid, vals1, mvs)))))"

text \<open>\<open>SqlPersist.insert_entity\<close> and \<open>SqlPersist.update_entity\<close>. The connection is not
  modelled: every statement goes to the one database. \<open>set_committed\<close> runs after the
  statements, outside the \<open>try\<close>.\<close>

definition insert_entity :: "runtime \<Rightarrow> persister \<Rightarrow> db \<Rightarrow> store \<Rightarrow> string \<Rightarrow> bool outcome" where
  "insert_entity rt ps d st h =
     (case get_meta_type_enum st h of
        Inl e \<Rightarrow> (d, st, Inl e)
      | Inr (VC c) \<Rightarrow> (d, st, Inl TypeError)
      | Inr (VM mt) \<Rightarrow>
          if mt \<in> persisted_types ps then
            (case prepare rt ps st h mt True of
               Inl e \<Rightarrow> (d, st, Inl e)
             | Inr (st1, tables, gid, vals, mvs) \<Rightarrow>
                 (case exec_insert d (hd tables) vals of
                    Inl e \<Rightarrow> (d, st1, Inl e)
                  | Inr d1 \<Rightarrow>
                      (case update_entity_multivalues d1 gid tables mvs False of
                         (d2, Inl e) \<Rightarrow> (d2, st1, Inl e)
                       | (d2, Inr b) \<Rightarrow>
                           (case set_committed rt st1 h of
                              Inl e \<Rightarrow> (d2, st1, Inl e)
                            | Inr st2 \<Rightarrow> (d2, st2, Inr True)))))
          else (d, st, Inr False)
      | Inr v \<Rightarrow> (d, st, Inr False))"

definition update_entity :: "runtime \<Rightarrow> persister \<Rightarrow> db \<Rightarrow> store \<Rightarrow> string \<Rightarrow> bool outcome" where
  "update_entity rt ps d st h =
     (case get_meta_type_enum st h of
        Inl e \<Rightarrow> (d, st, Inl e)
      | Inr (VC c) \<Rightarrow> (d, st, Inl TypeError)
      | Inr (VM mt) \<Rightarrow>
          if mt \<in> persisted_types ps then
            (case prepare rt ps st h mt False of
               Inl e \<Rightarrow> (d, st, Inl e)
             | Inr (st1, tables, gid, vals, mvs) \<Rightarrow>
                 (case exec_update d (hd tables) vals of
                    Inl e \<Rightarrow> (d, st1, Inl e)
                  | Inr d1 \<Rightarrow>
                      (case update_entity_multivalues d1 gid tables mvs True of
                         (d2, Inl e) \<Rightarrow> (d2, st1, Inl e)
                       | (d2, Inr b) \<Rightarrow>
                           (case set_committed rt st1 h of
                              Inl e \<Rightarrow> (d2, st1, Inl e)
                            | Inr st2 \<Rightarrow> (d2, st2, Inr True)))))
          else (d, st, Inr False)
      | Inr v \<Rightarrow> (d, st, Inr False))"

text \<open>\<open>SqlPersist.persist_entities\<close>: the dispatch on \<open>e.committed\<close>, compared with the
  members of \<open>Committed\<close>. An exception ends the pass.\<close>

fun persist_entities ::
    "runtime \<Rightarrow> persister \<Rightarrow> db \<Rightarrow> store \<Rightarrow> string list \<Rightarrow> unit outcome" where
  "persist_entities rt ps d st [] = (d, st, Inr ())"
| "persist_entities rt ps d st (h # hs) =
     (case obj_of st h of
        Inl e \<Rightarrow> (d, st, Inl e)
      | Inr e \<Rightarrow>
          if committed e = ACommitted CREATED then
            (case insert_entity rt ps d st h of
               (d1, st1, Inl er) \<Rightarrow> (d1, st1, Inl er)
             | (d1, st1, Inr b) \<Rightarrow> persist_entities rt ps d1 st1 hs)
          else if committed e = ACommitted UPDATED then
            (case update_entity rt ps d st h of
               (d1, st1, Inl er) \<Rightarrow> (d1, st1, Inl er)
             | (d1, st1, Inr b) \<Rightarrow> persist_entities rt ps d1 st1 hs)
          else persist_entities rt ps d st hs)"

subsection \<open>Loading\<close>

definition row_get :: "atom list \<Rightarrow> nat \<Rightarrow> error + atom" where
  "row_get row i = (if i < length row then Inr (row ! i) else Inl IndexError)"

text \<open>The loop over the fields of one primary row in \<open>load_entities\<close>: every column that
  is not \<open>NULL\<close> is assigned with \<open>entity.access(Operation.SET, value, field)\<close>, where
  \<open>entity\<close> is whatever \<open>Store.access\<close> gave back for the row.\<close>

fun load_fields :: "store \<Rightarrow> pyval \<Rightarrow> field list \<Rightarrow> atom list \<Rightarrow> nat \<Rightarrow> error + store" where
  "load_fields st ent [] row i = Inr st"
| "load_fields st ent (f # fs) row i =
     (if is_multi f then load_fields st ent fs row i
      else
        bnd (row_get row i) (\<lambda>a.
        bnd (map_value_from_db f a) (\<lambda>v.
        bnd (if v \<noteq> ANone then
               (case ent of
                  Atom (AEntity h) \<Rightarrow>
                    bnd (Entity_access st h Op_SET (Atom v) [PField f]) (\<lambda>(st1, rv). Inr st1)
                | _ \<Rightarrow> Inl AttributeError)
             else Inr st) (\<lambda>st1.
          load_fields st1 ent fs row (Suc i)))))"

text \<open>A method call on what \<open>Store.access\<close> gave back: an \<open>AttributeError\<close> unless it is
  an \<open>Entity\<close>.\<close>

definition call_set_committed :: "runtime \<Rightarrow> store \<Rightarrow> pyval \<Rightarrow> error + store" where
  "call_set_committed rt st ent =
     (case ent of Atom (AEntity h) \<Rightarrow> set_committed rt st h | _ \<Rightarrow> Inl AttributeError)"

text \<open>One row of the primary table: the unit and the meta type are looked up by their
  global ids, and the entity by the path \<open>(unit_entity, row[3], meta_type_entity)\<close>.\<close>

definition load_row :: "runtime \<Rightarrow> store \<Rightarrow> meta_type \<Rightarrow> atom list \<Rightarrow> error + (store \<times> atom \<times> pyval)" where
  "load_row rt st mt row =
     bnd (row_get row 0) (\<lambda>r0.
     bnd (row_get row 1) (\<lambda>r1.
     bnd (row_get row 2) (\<lambda>r2.
     bnd (row_get row 3) (\<lambda>r3.
     bnd (access st Op_GET (Atom ANone) [PVal (Atom r1)]) (\<lambda>(st1, unit_entity).
     bnd (access st1 Op_GET (Atom ANone) [PVal (Atom r2)]) (\<lambda>(st2, meta_type_entity).
     bnd (access st2 Op_GET (Atom ANone)
            [PVal unit_entity, PVal (Atom r3), PVal meta_type_entity]) (\<lambda>(st3, ent).
     bnd (load_fields st3 ent (fields_enum mt) row 4) (\<lambda>st4.
     bnd (call_set_committed rt st4 ent) (\<lambda>st5.
       Inr (st5, r0, ent))))))))))"

fun load_rows ::
    "runtime \<Rightarrow> store \<Rightarrow> meta_type \<Rightarrow> atom list list \<Rightarrow> (atom \<times> pyval) list
      \<Rightarrow> error + (store \<times> (atom \<times> pyval) list)" where
  "load_rows rt st mt [] entities = Inr (st, entities)"
| "load_rows rt st mt (row # rows) entities =
     bnd (load_row rt st mt row) (\<lambda>(st1, r0, ent).
       load_rows rt st1 mt rows (AList.update r0 ent entities))"

text \<open>The rows of one auxiliary table: each value of a loaded entity is added with
  \<open>Operation.ADD\<close>.\<close>

fun load_multi_rows ::
    "runtime \<Rightarrow> store \<Rightarrow> field \<Rightarrow> atom list list \<Rightarrow> (atom \<times> pyval) list \<Rightarrow> error + store" where
  "load_multi_rows rt st f [] entities = Inr st"
| "load_multi_rows rt st f (row # rows) entities =
     bnd (row_get row 0) (\<lambda>r0.
       case map_of entities r0 of
         None \<Rightarrow> load_multi_rows rt st f rows entities
       | Some ent \<Rightarrow>
           bnd (row_get row 2) (\<lambda>r2.
           bnd (map_value_from_db f r2) (\<lambda>v.
           bnd (case ent of
                  Atom (AEntity h) \<Rightarrow>
                    bnd (Entity_access st h Op_ADD (Atom v) [PField f]) (\<lambda>(st1, rv). Inr st1)
                | _ \<Rightarrow> Inl AttributeError) (\<lambda>st1.
           bnd (call_set_committed rt st1 ent) (\<lambda>st2.
             load_multi_rows rt st2 f rows entities)))))"

fun load_multi_fields ::
    "runtime \<Rightarrow> db \<Rightarrow> store \<Rightarrow> string \<Rightarrow> field list \<Rightarrow> (atom \<times> pyval) list \<Rightarrow> error + store" where
  "load_multi_fields rt d st tn [] entities = Inr st"
| "load_multi_fields rt d st tn (f # fs) entities =
     (if is_multi f then
        bnd (exec_select d (multivalue_table tn f)) (\<lambda>rows.
        bnd (load_multi_rows rt st f rows entities) (\<lambda>st1.
          load_multi_fields rt d st1 tn fs entities))
      else load_multi_fields rt d st tn fs entities)"

text \<open>\<open>SqlPersist.load_entities\<close> with \<open>filters=None\<close>, as \<open>load_type\<close> calls it: the
  store after loading and \<open>entities.values()\<close>.\<close>

definition load_entities ::
    "runtime \<Rightarrow> persister \<Rightarrow> db \<Rightarrow> store \<Rightarrow> meta_type \<Rightarrow> error + (store \<times> pyval list)" where
  "load_entities rt ps d st mt =
     bnd (table_name_of ps mt) (\<lambda>tn.
     bnd (exec_select d (hd (sql_tables tn (fields_enum mt)))) (\<lambda>rows.
     bnd (load_rows rt st mt rows []) (\<lambda>(st1, entities).
     bnd (load_multi_fields rt d st1 tn (fields_enum mt) entities) (\<lambda>st2.
       Inr (st2, map snd entities)))))"

text \<open>\<open>SqlPersist.load_type\<close>: \<open>type_name[0]\<close> of an empty name is an \<open>IndexError\<close>.\<close>

definition load_type ::
    "runtime \<Rightarrow> persister \<Rightarrow> db \<Rightarrow> store \<Rightarrow> meta_type \<Rightarrow> error + (store \<times> pyval list)" where
  "load_type rt ps d st um =
     (case type_name um of
        [] \<Rightarrow> Inl IndexError
      | c # cs \<Rightarrow> if c \<noteq> CHR ''_'' then load_entities rt ps d st um else Inr (st, []))"

subsection \<open>Schema generation\<close>

text \<open>The loop of \<open>SqlPersist.generate_schema\<close>. Every member is recorded in
  \<open>__unit_meta_unit\<close> and \<open>__persisted_types\<close>; the tables of \<open>table_schemas\<close> are emitted
  and created unless the type name starts with an underscore. A rendered
  \<open>CREATE TABLE\<close> statement is represented by its table.\<close>

fun schema_loop ::
    "persister \<Rightarrow> db \<Rightarrow> string \<Rightarrow> meta_type list \<Rightarrow> SqlTable list
      \<Rightarrow> persister \<times> db \<times> (error + SqlTable list)" where
  "schema_loop ps d un [] schema = (ps, d, Inr schema)"
| "schema_loop ps d un (um # ums) schema =
     (let ps1 = ps\<lparr>persisted_types := insert um (persisted_types ps),
                   unit_meta_unit := (unit_meta_unit ps)(um \<mapsto> un)\<rparr>
      in case type_name um of
           [] \<Rightarrow> (ps1, d, Inl IndexError)
         | c # cs \<Rightarrow>
             if c \<noteq> CHR ''_'' then
               (case table_name_of ps1 um of
                  Inl e \<Rightarrow> (ps1, d, Inl e)
                | Inr tn \<Rightarrow>
                    schema_loop ps1 (foldl exec_create d (sql_tables tn (fields_enum um))) un ums
                      (schema @ sql_tables tn (fields_enum um)))
             else schema_loop ps1 d un ums schema)"

text \<open>\<open>SqlPersist.generate_schema\<close>. When \<open>EntityTypes.unit\<close> is not yet persisted the base
  schema is generated by a call of itself for \<open>(UNIT_ENTITY, EntityTypes)\<close>, whose result
  is dropped; that call records \<open>EntityTypes.unit\<close>, so it does not call itself again.\<close>

definition generate_schema ::
    "persister \<Rightarrow> db \<Rightarrow> string \<Rightarrow> meta_type list \<Rightarrow> persister \<times> db \<times> (error + SqlTable list)" where
  "generate_schema ps d un unit_meta_enums =
     (case schema_loop ps d un unit_meta_enums [] of
        (ps1, d1, Inl e) \<Rightarrow> (ps1, d1, Inl e)
      | (ps1, d1, Inr schema) \<Rightarrow>
          if EntityTypes_unit \<notin> persisted_types ps1 then
            (case schema_loop ps1 d1 UNIT_ENTITY EntityTypes [] of
               (ps2, d2, Inl e) \<Rightarrow> (ps2, d2, Inl e)
             | (ps2, d2, Inr base_schema) \<Rightarrow> (ps2, d2, Inr schema))
          else (ps1, d1, Inr schema))"

section \<open>Well-formedness of a filed entity\<close>

text \<open>An entity is filed under its own global id: the key \<open>h\<close> is what \<open>global_id()\<close>
  computes from the object's attributes, for a unit called \<open>un\<close> and a meta type \<open>mt\<close>, and
  the unit's name is not itself read as a global id.\<close>

definition filed ::
    "store \<Rightarrow> string \<Rightarrow> string \<Rightarrow> meta_type \<Rightarrow> (string \<times> pyval) list \<Rightarrow> entity \<Rightarrow> bool" where
  "filed st h un mt m e \<longleftrightarrow>
     map_of (entity_map st) h = Some (m, e) \<and>
     enum_map st (KE (e_unit e)) = Some (VS un) \<and>
     enum_map st (KE (e_meta_type e)) = Some (VM mt) \<and>
     h = un @ '':'' @ str_int (entity_id e) @ '':'' @ type_name mt \<and>
     CHR '':'' \<notin> set un"

text \<open>\<open>_create_message\<close> can look up the unit of the entity: its global id resolves and the
  unit has a name.\<close>

definition notifiable :: "store \<Rightarrow> string \<Rightarrow> bool" where
  "notifiable st h =
     (case resolve_global_id st (Atom (AStr h)) of
        Inr (Some (u, i, mh)) \<Rightarrow> (case enum_map st (KE u) of Some (VS n) \<Rightarrow> True | _ \<Rightarrow> False)
      | _ \<Rightarrow> False)"

fun no_entity :: "pelem \<Rightarrow> bool" where
  "no_entity (PVal (Atom (AEntity h))) = False"
| "no_entity p = True"

section \<open>Vocabulary for the persistence theorems\<close>

text \<open>\<open>type_name[0] != "_"\<close> for a non-empty name.\<close>

definition emits :: "meta_type \<Rightarrow> bool" where
  "emits um = (case type_name um of [] \<Rightarrow> False | c # cs \<Rightarrow> c \<noteq> CHR ''_'')"

text \<open>The tables of the types of a list whose names do not start with an underscore.\<close>

definition emitted :: "string \<Rightarrow> meta_type list \<Rightarrow> SqlTable list" where
  "emitted un ums =
     concat (map (\<lambda>um. sql_tables (un @ ''_'' @ type_name um) (fields_enum um)) (filter emits ums))"


text \<open>The rows \<open>(_global_id, _value_cnt, value)\<close> of the elements of a collection,
  \<open>_value_cnt\<close> counting from \<open>cnt\<close>.\<close>

fun numbered :: "string \<Rightarrow> nat \<Rightarrow> atom list \<Rightarrow> atom list list" where
  "numbered gid cnt [] = []"
| "numbered gid cnt (v # vs) = [AStr gid, AInt (int cnt), v] # numbered gid (Suc cnt) vs"









text \<open>The \<open>committed\<close> attribute is \<open>False\<close>, as \<open>Entity.__init__\<close> and
  \<open>Store._set_uncommitted\<close> leave it.\<close>

definition flagged_false :: "store \<Rightarrow> string \<Rightarrow> bool" where
  "flagged_false st h = (case obj_of st h of Inl e \<Rightarrow> False | Inr e \<Rightarrow> committed e = AInt 0)"

fun entity_or_none :: "pyval \<Rightarrow> bool" where
  "entity_or_none (Atom (AEntity h)) = True"
| "entity_or_none (Atom ANone) = True"
| "entity_or_none v = False"

section \<open>Vocabulary for the id counter\<close>

text \<open>One entry of \<open>_entity_map\<close> is filed under the global id of its \<open>Entity\<close> object,
  and the name of the object's unit has no colon.\<close>

definition entry_filed ::
    "(ekey \<rightharpoonup> evalue) \<Rightarrow> string \<times> ((string \<times> pyval) list \<times> entity) \<Rightarrow> bool" where
  "entry_filed em kme =
     (case em (KE (e_unit (snd (snd kme)))) of
        Some (VS n) \<Rightarrow>
          (case em (KE (e_meta_type (snd (snd kme)))) of
             Some (VM t) \<Rightarrow>
               fst kme = n @ '':'' @ str_int (entity_id (snd (snd kme))) @ '':'' @ type_name t
               \<and> CHR '':'' \<notin> set n
           | _ \<Rightarrow> False)
      | _ \<Rightarrow> False)"

definition well_filed :: "store \<Rightarrow> bool" where
  "well_filed st = list_all (entry_filed (enum_map st)) (entity_map st)"

text \<open>The unit \<open>un\<close> is registered under its name, which is not empty and has no colon, and
  its entity holds the integer \<open>c\<close> in the field \<open>id_cnt\<close>, registered under a name of its
  own.\<close>

definition counter_at :: "store \<Rightarrow> string \<Rightarrow> int \<Rightarrow> bool" where
  "counter_at st un c =
     (case enum_map st (KS un) of
        Some (VE u) \<Rightarrow>
          enum_map st (KE u) = Some (VS un) \<and> un \<noteq> [] \<and> CHR '':'' \<notin> set un \<and>
          (case map_of (entity_map st) u of
             Some me \<Rightarrow>
               (case enum_map st (KF UnitMeta_id_cnt) of
                  Some (VS g) \<Rightarrow>
                    enum_map st (KS g) \<noteq> None \<and> g \<noteq> committed_field \<and>
                    map_of (fst me) g = Some (Atom (AInt c))
                | _ \<Rightarrow> False)
           | None \<Rightarrow> False)
      | _ \<Rightarrow> False)"

text \<open>The meta type is registered with its type entity, in both directions, as
  \<open>load_types_from_enum\<close> does, and the type entity is in the store.\<close>

definition registered :: "store \<Rightarrow> meta_type \<Rightarrow> bool" where
  "registered st mt =
     (case enum_map st (KM mt) of
        Some (VE mh) \<Rightarrow>
          enum_map st (KE mh) = Some (VM mt) \<and> map_of (entity_map st) mh \<noteq> None
      | _ \<Rightarrow> False)"

text \<open>Creating one entity per meta type of the list under the unit \<open>un\<close>, each with
  \<open>Store.access(Operation.GET, None, un, None, meta_type)\<close>, the id omitted; the result
  lists the \<open>entity_id\<close> of the entities handed back.\<close>

fun create_all :: "store \<Rightarrow> string \<Rightarrow> meta_type list \<Rightarrow> error + (store \<times> int list)" where
  "create_all st un [] = Inr (st, [])"
| "create_all st un (mt # mts) =
     bnd (access st Op_GET (Atom ANone) [PVal (Atom (AStr un)), PVal (Atom ANone), PMeta mt])
       (\<lambda>(st1, rv).
          case rv of
            Atom (AEntity h) \<Rightarrow>
              bnd (obj_of st1 h) (\<lambda>e.
              bnd (create_all st1 un mts) (\<lambda>(st2, ids). Inr (st2, entity_id e # ids)))
          | _ \<Rightarrow> Inl Unmodelled)"

section \<open>An example store\<close>

text \<open>One caller-declared type \<open>item\<close> of a unit \<open>app\<close>, and the store as \<open>create_unit\<close>
  and \<open>load_types_from_enum\<close> leave it, with one entity \<open>app:5:item\<close> marked saved.\<close>

definition ItemMeta_title :: field where
  "ItemMeta_title = mk_field ''ItemMeta'' ''title'' D_STRING SINGLE 1 10"
definition ItemMeta_count :: field where
  "ItemMeta_count = mk_field ''ItemMeta'' ''count'' D_INT SINGLE 2 11"
definition ItemMeta_tags :: field where
  "ItemMeta_tags = mk_field ''ItemMeta'' ''tags'' D_STRING SET 3 12"
definition ItemMeta_scores :: field where
  "ItemMeta_scores = mk_field ''ItemMeta'' ''scores'' D_INT LIST 4 13"
definition ItemMeta_owner :: field where
  "ItemMeta_owner = mk_field ''ItemMeta'' ''owner'' D_ENTITY SINGLE 5 14"
definition ItemMeta_friends :: field where
  "ItemMeta_friends = mk_field ''ItemMeta'' ''friends'' D_ENTITY SET 6 15"
definition ItemMeta_note :: field where
  "ItemMeta_note = mk_field ''ItemMeta'' ''note'' D_STRING SINGLE 7 16"

definition ItemMeta :: "field list" where
  "ItemMeta =
     [ItemMeta_title, ItemMeta_count, ItemMeta_tags, ItemMeta_scores, ItemMeta_owner,
      ItemMeta_friends, ItemMeta_note]"

definition AppTypes_item :: meta_type where
  "AppTypes_item = mk_meta ''AppTypes'' ''item'' ''app'' ItemMeta 1"

text \<open>A second type of the unit, without fields.\<close>

definition AppTypes_box :: meta_type where
  "AppTypes_box = mk_meta ''AppTypes'' ''box'' ''app'' [] 2"

text \<open>What \<open>load_types_from_enum\<close> files in \<open>_enum_map\<close> for the fields of a type.\<close>

definition field_config_of :: "field \<Rightarrow> field_config" where
  "field_config_of f =
     \<lparr>c_datatype = f_datatype f, c_valuetype = f_valuetype f, c_id = f_id_value f,
      c_order = f_order_value f, c_enum = f\<rparr>"

definition registered_fields :: "meta_type \<Rightarrow> (ekey \<times> evalue) list" where
  "registered_fields m =
     concat (map (\<lambda>f.
        [(KS (global_field_name (unit_name m) (type_name m) (f_name f)), VC (field_config_of f)),
         (KF f, VS (global_field_name (unit_name m) (type_name m) (f_name f)))])
       (fields_enum m))"

definition base_values :: "string \<Rightarrow> int \<Rightarrow> string \<Rightarrow> (string \<times> pyval) list" where
  "base_values u i m =
     [(unit_field, Atom (AStr u)), (entity_id_field, Atom (AInt i)),
      (meta_type_field, Atom (AStr m)), (committed_field, Atom (AInt 0))]"

definition example_item_values_with :: "atom list \<Rightarrow> (string \<times> pyval) list" where
  "example_item_values_with scores =
     base_values ''entity:3:unit'' 5 ''app:1:type_meta'' @
     [(''app:item:title'', Atom (AStr ''box'')),
      (''app:item:count'', Atom (AInt 7)),
      (''app:item:tags'', PSet {AStr ''a'', AStr ''b'', AStr ''c''}),
      (''app:item:scores'', PList scores),
      (''app:item:owner'', Atom (AStr ''app:5:item'')),
      (''app:item:friends'', PSet {AStr ''app:5:item''})]"

definition example_item_values :: "(string \<times> pyval) list" where
  "example_item_values = example_item_values_with [AInt 10, AInt 20, AInt 30]"

definition example_item :: entity where
  "example_item = (Entity ''entity:3:unit'' 5 ''app:1:type_meta'')\<lparr>committed := ACommitted SAVED\<rparr>"

definition example_unit_values :: "(string \<times> pyval) list" where
  "example_unit_values =
     base_values ''entity:1:unit'' 3 ''entity_meta:3:type_meta'' @
     [(''entity_meta:unit:id_cnt'', Atom (AInt 5)), (''entity_meta:unit:name'', Atom (AStr ''app''))]"

definition example_unit :: entity where
  "example_unit = Entity ''entity:1:unit'' 3 ''entity_meta:3:type_meta''"

definition example_store_with :: "atom list \<Rightarrow> store" where
  "example_store_with scores =
     \<lparr>entity_map =
        [(''entity:1:unit'',
            (base_values ''entity:1:unit'' 1 ''entity_meta:3:type_meta'' @
             [(''entity_meta:unit:id_cnt'', Atom (AInt 3)),
              (''entity_meta:unit:name'', Atom (AStr ''entity''))],
             Entity ''entity:1:unit'' 1 ''entity_meta:3:type_meta'')),
         (''entity:2:unit'',
            (base_values ''entity:1:unit'' 2 ''entity_meta:3:type_meta'' @
             [(''entity_meta:unit:id_cnt'', Atom (AInt 4)),
              (''entity_meta:unit:name'', Atom (AStr ''entity_meta''))],
             Entity ''entity:1:unit'' 2 ''entity_meta:3:type_meta'')),
         (''entity_meta:1:type_meta'',
            (base_values ''entity:2:unit'' 1 ''entity_meta:1:type_meta'' @
             [(''entity_meta:type_meta:name'', Atom (AStr ''type_meta''))],
             Entity ''entity:2:unit'' 1 ''entity_meta:1:type_meta'')),
         (''entity_meta:3:type_meta'',
            (base_values ''entity:2:unit'' 3 ''entity_meta:1:type_meta'' @
             [(''entity_meta:type_meta:name'', Atom (AStr ''unit''))],
             Entity ''entity:2:unit'' 3 ''entity_meta:1:type_meta'')),
         (''entity:3:unit'', (example_unit_values, example_unit)),
         (''app:1:type_meta'',
            (base_values ''entity:3:unit'' 1 ''entity_meta:1:type_meta'' @
             [(''entity_meta:type_meta:name'', Atom (AStr ''item''))],
             Entity ''entity:3:unit'' 1 ''entity_meta:1:type_meta'')),
         (''app:2:type_meta'',
            (base_values ''entity:3:unit'' 2 ''entity_meta:1:type_meta'' @
             [(''entity_meta:type_meta:name'', Atom (AStr ''box''))],
             Entity ''entity:3:unit'' 2 ''entity_meta:1:type_meta'')),
         (''app:5:item'', (example_item_values_with scores, example_item))],
      enum_map = map_of (
        [(KS ''entity'', VE ''entity:1:unit''), (KE ''entity:1:unit'', VS ''entity''),
         (KS ''entity_meta'', VE ''entity:2:unit''), (KE ''entity:2:unit'', VS ''entity_meta''),
         (KS ''app'', VE ''entity:3:unit''), (KE ''entity:3:unit'', VS ''app''),
         (KM EntityTypes_type_meta, VE ''entity_meta:1:type_meta''),
         (KE ''entity_meta:1:type_meta'', VM EntityTypes_type_meta),
         (KS ''entity_meta:1:type_meta'', VM EntityTypes_type_meta),
         (KM EntityTypes_unit, VE ''entity_meta:3:type_meta''),
         (KE ''entity_meta:3:type_meta'', VM EntityTypes_unit),
         (KS ''entity_meta:3:type_meta'', VM EntityTypes_unit),
         (KM AppTypes_item, VE ''app:1:type_meta''),
         (KE ''app:1:type_meta'', VM AppTypes_item),
         (KS ''app:1:type_meta'', VM AppTypes_item),
         (KM AppTypes_box, VE ''app:2:type_meta''),
         (KE ''app:2:type_meta'', VM AppTypes_box),
         (KS ''app:2:type_meta'', VM AppTypes_box)]
        @ registered_fields EntityTypes_type_meta @ registered_fields EntityTypes_unit
        @ registered_fields AppTypes_item),
      messages_create_message = True,
      UNIT_MESSAGES = ''messages'',
      messages = []\<rparr>"

definition example_store :: store where
  "example_store = example_store_with [AInt 10, AInt 20, AInt 30]"

subsection \<open>An example persister and database\<close>

text \<open>\<open>SqlPersist.__init__\<close>.\<close>

definition new_persister :: persister where
  "new_persister = \<lparr>persisted_types = {}, unit_meta_unit = Map.empty\<rparr>"

text \<open>Modelled from the spec: \<open>Entity.set_committed\<close>, which dust/persist/sqlpersist.py
  calls and dust/entity.py does not define. The spec's data model says that a successful
  persistence pass flips the committed state to saved.\<close>

definition spec_set_committed :: "store \<Rightarrow> string \<Rightarrow> error + store" where
  "spec_set_committed st h =
     (case map_of (entity_map st) h of
        None \<Rightarrow> Inl Unmodelled
      | Some (m, e) \<Rightarrow>
          Inr (st\<lparr>entity_map := AList.update h (m, e\<lparr>committed := ACommitted SAVED\<rparr>) (entity_map st)\<rparr>))"

text \<open>One order in which the sets of the example are iterated.\<close>

definition example_order :: "atom set \<Rightarrow> atom list" where
  "example_order S = filter (\<lambda>a. a \<in> S) [AStr ''c'', AStr ''a'', AStr ''b'', AStr ''app:5:item'']"

definition example_runtime :: runtime where
  "example_runtime = \<lparr>set_committed = spec_set_committed, iter_set = example_order\<rparr>"

text \<open>The persister after \<open>generate_schema("app", AppTypes)\<close>, as far as the type
  \<open>item\<close> goes.\<close>

definition example_persister :: persister where
  "example_persister =
     \<lparr>persisted_types = {AppTypes_item}, unit_meta_unit = [AppTypes_item \<mapsto> ''app'']\<rparr>"

text \<open>The tables of the type \<open>item\<close> with the rows of the example entity, its scores being
  \<open>[1, 2, 3]\<close>, and one score of another entity.\<close>

definition example_db :: db where
  "example_db =
     [(''app_item'',
         [[AStr ''app:5:item'', AStr ''entity:3:unit'', AStr ''app:1:type_meta'', AInt 5,
           AStr ''box'', AInt 7, AStr ''app:5:item'', ANone]]),
      (''app_item_tags'',
         [[AStr ''app:5:item'', AInt 0, AStr ''c''], [AStr ''app:5:item'', AInt 1, AStr ''a''],
          [AStr ''app:5:item'', AInt 2, AStr ''b'']]),
      (''app_item_scores'',
         [[AStr ''app:5:item'', AInt 0, AInt 1], [AStr ''app:9:item'', AInt 0, AInt 7],
          [AStr ''app:5:item'', AInt 1, AInt 2], [AStr ''app:5:item'', AInt 2, AInt 3]]),
      (''app_item_friends'', [[AStr ''app:5:item'', AInt 0, AStr ''app:5:item'']])]"

subsection \<open>A type with multi-valued fields only\<close>








section \<open>Basic facts\<close>

lemma bnd_Inr_iff: "bnd x f = Inr y \<longleftrightarrow> (\<exists>z. x = Inr z \<and> f z = Inr y)"
  by (cases x) auto

lemma split_colon_no_colon: "CHR '':'' \<notin> set s \<Longrightarrow> split_colon s = [s]"
  by (induction s) auto

lemma resolve_no_colon:
  "CHR '':'' \<notin> set s \<Longrightarrow> resolve_global_id st (Atom (AStr s)) = Inr None"
  by (simp add: resolve_global_id_def split_colon_no_colon)

lemma resolve_not_str: "(\<And>s. v \<noteq> Atom (AStr s)) \<Longrightarrow> resolve_global_id st v = Inr None"
  by (auto simp: resolve_global_id_def split: pyval.splits atom.splits)

lemma filedD:
  assumes "filed st h un mt m e"
  shows "map_of (entity_map st) h = Some (m, e)"
    and "enum_map st (KE (e_unit e)) = Some (VS un)"
    and "enum_map st (KE (e_meta_type e)) = Some (VM mt)"
    and "un @ '':'' @ str_int (entity_id e) @ '':'' @ type_name mt = h"
    and "CHR '':'' \<notin> set un"
  using assms by (auto simp: filed_def)

lemma filed_global_id: "filed st h un mt m e \<Longrightarrow> global_id st h = Inr h"
  using filedD[of st h un mt m e]
  by (simp add: global_id_def obj_of_def ref_entities_def enum_get_def)

text \<open>Resolution of a global id reads the meta types of the filed entities only, so it is
  not disturbed by a write to an entity's attribute dictionary or \<open>committed\<close> flag.\<close>

lemma resolve_update:
  assumes "map_of (entity_map st) h = Some (m, e)" "e_meta_type e' = e_meta_type e"
  shows "resolve_global_id (st\<lparr>entity_map := AList.update h (m', e') (entity_map st)\<rparr>) v
         = resolve_global_id st v"
  using assms
  by (auto simp: resolve_global_id_def obj_of_def enum_get_def update_conv' Let_def
           split: pyval.splits atom.splits option.splits evalue.splits)

lemma locate_explicit:
  assumes "filed st h un mt m e"
  shows "locate inc st (PVal (Atom (AStr un)) # PVal (Atom (AInt (entity_id e))) # PMeta mt # rest)
         = Inr (st, Some h, Some (entity_id e), 3)"
  using filedD[OF assms] by (simp add: locate_def resolve_no_colon)

lemma get_value_field:
  assumes "filed st h un mt m e" "enum_map st (KF f) = Some (VS g)" "map_of m g = Some v"
    "\<And>s. v \<noteq> Atom (AStr s)"
  shows "access_data_get_value st (Atom (AEntity h)) (PField f) d = Inr v"
  using assms(2-) filedD(1)[OF assms(1)] filed_global_id[OF assms(1)]
  by (simp add: access_data_get_value_def enum_get_def dict_get_def deref_def resolve_not_str)

lemma set_value_change:
  assumes "filed st h un mt m e" "enum_map st (KF f) = Some (VS g)" "enum_map st (KS g) = Some cfg"
    "f_valuetype f = SINGLE" "map_of m g = Some (Atom (AInt v))"
  shows "access_data_set_value st (Atom (AEntity h)) (PField f) (Atom (AInt d)) Op_CHANGE
         = Inr (st\<lparr>entity_map := AList.update h
                    (set_uncommitted (AList.update g (Atom (AInt (v + d))) m), e\<lparr>committed := AInt 0\<rparr>)
                    (entity_map st)\<rparr>, True, Atom (AInt (v + d)))"
  using assms(2-) filedD(1)[OF assms(1)] filed_global_id[OF assms(1)]
  by (simp add: access_data_set_value_def enum_get_def dict_get_def set_value_body_def)

lemma render_path_ok: "list_all no_entity path \<Longrightarrow> \<exists>r. render_path st path = Inr r"
proof (induction path)
  case Nil
  then show ?case by simp
next
  case (Cons p ps)
  then obtain r where r: "render_path st ps = Inr r" by auto
  from Cons.prems have "no_entity p" by simp
  then show ?case using r
    by (cases "(st, p # ps)" rule: render_path.cases) auto
qed

lemma create_message_frame:
  assumes "create_message st operation path gid = Inr st'"
  shows "entity_map st' = entity_map st \<and> enum_map st' = enum_map st
         \<and> messages_create_message st' = messages_create_message st
         \<and> UNIT_MESSAGES st' = UNIT_MESSAGES st"
  using assms
  by (auto simp: create_message_def bnd_Inr_iff split: if_splits)

lemma notifiableD:
  assumes "notifiable st h"
  obtains u i mh n where "resolve_global_id st (Atom (AStr h)) = Inr (Some (u, i, mh))"
    and "enum_map st (KE u) = Some (VS n)"
  using assms
  by (auto simp: notifiable_def split: sum.splits option.splits evalue.splits)

lemma create_message_ok:
  assumes "notifiable st h" "list_all no_entity path"
  shows "\<exists>st'. create_message st operation path (Some h) = Inr st'"
proof -
  obtain r where r: "render_path st path = Inr r" using render_path_ok[OF assms(2)] by blast
  from assms(1) obtain u i mh n
    where res: "resolve_global_id st (Atom (AStr h)) = Inr (Some (u, i, mh))"
      and un: "enum_map st (KE u) = Some (VS n)"
    by (rule notifiableD)
  show ?thesis
    by (simp add: create_message_def res un enum_get_def r)
qed

lemma notifiable_update:
  assumes "map_of (entity_map st) h = Some (m, e)" "e_meta_type e' = e_meta_type e"
  shows "notifiable (st\<lparr>entity_map := AList.update h (m', e') (entity_map st)\<rparr>) k = notifiable st k"
  by (simp add: notifiable_def resolve_update[OF assms] split: sum.splits option.splits prod.splits)

section \<open>CHANGE\<close>

text \<open>
  Claim C6. For an entity filed under its global id and a \<open>SINGLE\<close> field holding the
  integer \<open>v\<close>, \<open>CHANGE\<close> with delta \<open>d\<close> through \<open>Entity.access\<close> returns \<open>v + d\<close>, stores
  \<open>v + d\<close> in the field, and sets the entity's \<open>committed\<close> attribute and its \<open>committed\<close>
  base field to \<open>False\<close>, whatever \<open>d\<close> is (also for \<open>d = 0\<close>).
\<close>

theorem change_adds_delta:
  assumes f: "filed st h un mt m e"
    and n: "notifiable st h"
    and fg: "enum_map st (KF f) = Some (VS g)"
    and cfg: "enum_map st (KS g) = Some cfg"
    and single: "f_valuetype f = SINGLE"
    and stored: "map_of m g = Some (Atom (AInt v))"
    and g: "g \<noteq> committed_field"
  shows "\<exists>st' m' e'.
           Entity_access st h Op_CHANGE (Atom (AInt d)) [PField f] = Inr (st', Atom (AInt (v + d)))
           \<and> map_of (entity_map st') h = Some (m', e')
           \<and> map_of m' g = Some (Atom (AInt (v + d)))
           \<and> committed e' = AInt 0
           \<and> map_of m' committed_field = Some (Atom (AInt 0))"
proof -
  let ?path = "[PVal (Atom (AStr un)), PVal (Atom (AInt (entity_id e))), PMeta mt, PField f]"
  let ?m = "set_uncommitted (AList.update g (Atom (AInt (v + d))) m)"
  let ?e = "e\<lparr>committed := AInt 0\<rparr>"
  let ?st = "st\<lparr>entity_map := AList.update h (?m, ?e) (entity_map st)\<rparr>"
  note fd = filedD[OF f]
  have gid: "global_id st h = Inr h" by (rule filed_global_id[OF f])
  have loc: "locate increment_unit_counter st ?path = Inr (st, Some h, Some (entity_id e), 3)"
    by (rule locate_explicit[OF f])
  have getv: "access_data_get_value st (Atom (AEntity h)) (PField f) (Atom ANone) = Inr (Atom (AInt v))"
    by (rule get_value_field[OF f fg stored]) simp
  have setv: "access_data_set_value st (Atom (AEntity h)) (PField f) (Atom (AInt d)) Op_CHANGE
              = Inr (?st, True, Atom (AInt (v + d)))"
    by (rule set_value_change[OF f fg cfg single stored])
  have "notifiable ?st h"
    using n by (simp add: notifiable_update[OF fd(1)])
  then obtain st5 where msg: "create_message ?st Op_CHANGE ?path (Some h) = Inr st5"
    using create_message_ok[of ?st h ?path Op_CHANGE] by auto
  have em: "entity_map st5 = entity_map ?st"
    using create_message_frame[OF msg] by simp
  have acc: "Entity_access st h Op_CHANGE (Atom (AInt d)) [PField f] = Inr (st5, Atom (AInt (v + d)))"
    using fd(1-3)
    by (simp add: Entity_access_def Entity_access_gen_def obj_of_def enum_get_def access_gen_def
        loc gid getv setv msg Let_def)
  have "map_of (entity_map st5) h = Some (?m, ?e)"
    by (simp add: em update_conv')
  moreover have "map_of ?m g = Some (Atom (AInt (v + d)))"
    using g by (simp add: set_uncommitted_def update_conv')
  moreover have "map_of ?m committed_field = Some (Atom (AInt 0))"
    by (simp add: set_uncommitted_def update_conv')
  ultimately show ?thesis using acc by auto
qed

lemma example_item_filed:
  "filed example_store ''app:5:item'' ''app'' AppTypes_item example_item_values example_item"
  unfolding filed_def by code_simp

lemma example_item_notifiable: "notifiable example_store ''app:5:item''"
  by code_simp

theorem change_adds_delta_witness:
  "filed example_store ''app:5:item'' ''app'' AppTypes_item example_item_values example_item
   \<and> notifiable example_store ''app:5:item''
   \<and> committed example_item = ACommitted SAVED
   \<and> (\<exists>st' m' e'.
        Entity_access example_store ''app:5:item'' Op_CHANGE (Atom (AInt 0)) [PField ItemMeta_count]
          = Inr (st', Atom (AInt 7))
        \<and> map_of (entity_map st') ''app:5:item'' = Some (m', e')
        \<and> map_of m' ''app:item:count'' = Some (Atom (AInt 7))
        \<and> committed e' = AInt 0
        \<and> map_of m' committed_field = Some (Atom (AInt 0)))"
proof -
  have fg: "enum_map example_store (KF ItemMeta_count) = Some (VS ''app:item:count'')"
    by code_simp
  have cfg: "enum_map example_store (KS ''app:item:count'') = Some (VC (field_config_of ItemMeta_count))"
    by code_simp
  have single: "f_valuetype ItemMeta_count = SINGLE" by code_simp
  have stored: "map_of example_item_values ''app:item:count'' = Some (Atom (AInt 7))"
    by code_simp
  have g: "''app:item:count'' \<noteq> committed_field" by code_simp
  have c: "committed example_item = ACommitted SAVED" by code_simp
  show ?thesis
    using change_adds_delta[OF example_item_filed example_item_notifiable fg cfg single stored g, of 0]
      example_item_filed example_item_notifiable c
    by simp
qed

section \<open>Schema generation and types whose name starts with an underscore\<close>

lemma table_name_add_field [simp]: "table_name (add_field t n ty pk bf) = table_name t"
  by (simp add: add_field_def Let_def)

lemma table_name_foldl_add:
  "table_name (foldl (\<lambda>t f. add_field t (nm f) (ty f) pk bf) t0 fs) = table_name t0"
  by (induction fs arbitrary: t0) auto

lemma table_name_primary [simp]: "table_name (primary_table tn fs) = tn"
  by (simp add: primary_table_def table_name_foldl_add new_SqlTable_def)

lemma table_name_multivalue [simp]: "table_name (multivalue_table tn f) = tn @ ''_'' @ f_name f"
  by (simp add: multivalue_table_def new_SqlTable_def)

lemma sql_tables_names:
  "t \<in> set (sql_tables tn fs) \<Longrightarrow>
     table_name t = tn \<or> (\<exists>f \<in> set fs. table_name t = tn @ ''_'' @ f_name f)"
  by (auto simp: sql_tables_def)


lemma schema_loop_result:
  "schema_loop ps d un ums acc = (ps', d', Inr schema) \<Longrightarrow>
     schema = acc @ emitted un ums \<and> d' = foldl exec_create d (emitted un ums)
     \<and> persisted_types ps' = persisted_types ps \<union> set ums"
proof (induction ums arbitrary: ps d acc)
  case Nil
  then show ?case by (simp add: emitted_def)
next
  case (Cons um ums)
  show ?case
  proof (cases "type_name um")
    case Nil
    with Cons.prems show ?thesis by (simp add: Let_def)
  next
    case (Cons c cs)
    show ?thesis
    proof (cases "c = CHR ''_''")
      case True
      with Cons Cons.prems Cons.IH[of _ d acc] show ?thesis
        by (auto simp: Let_def emitted_def emits_def)
    next
      case False
      with Cons Cons.prems
        Cons.IH[of _ "foldl exec_create d (sql_tables (un @ ''_'' @ type_name um) (fields_enum um))"
                  "acc @ sql_tables (un @ ''_'' @ type_name um) (fields_enum um)"]
      show ?thesis
        by (auto simp: Let_def emitted_def emits_def table_name_of_def)
    qed
  qed
qed

lemma emitted_names:
  assumes "t \<in> set (emitted un ums)"
  shows "\<exists>c x. table_name t = un @ ''_'' @ c # x \<and> c \<noteq> CHR ''_''"
proof -
  from assms obtain um where um: "um \<in> set ums" "emits um"
    and t: "t \<in> set (sql_tables (un @ ''_'' @ type_name um) (fields_enum um))"
    by (auto simp: emitted_def)
  from um(2) obtain c cs where tn: "type_name um = c # cs" "c \<noteq> CHR ''_''"
    by (auto simp: emits_def split: list.splits)
  from sql_tables_names[OF t] tn show ?thesis by auto
qed

lemma private_names:
  assumes "t' \<in> set (sql_tables (un @ ''_'' @ type_name um) (fields_enum um))"
    and "type_name um = CHR ''_'' # rest"
  shows "\<exists>x. table_name t' = un @ ''__'' @ x"
  using sql_tables_names[OF assms(1)] assms(2) by auto

lemma is_prefix_append: "is_prefix s (s @ b)"
  by (induction s) auto

lemma py_substr_append: "py_substr s (a @ s @ b)"
proof (induction a)
  case Nil
  show ?case using is_prefix_append[of s b] by (cases "s @ b") auto
next
  case (Cons c a)
  then show ?case by simp
qed

lemma map_of_exec_create:
  "map_of (exec_create d t) n = (if n = table_name t \<and> map_of d n = None then Some [] else map_of d n)"
  by (auto simp: exec_create_def update_conv' split: option.splits)

lemma map_of_foldl_exec_create:
  "n \<notin> table_name ` set ts \<Longrightarrow> map_of (foldl exec_create d ts) n = map_of d n"
  by (induction ts arbitrary: d) (auto simp: map_of_exec_create)

lemma base_schema_names:
  "map table_name (emitted UNIT_ENTITY EntityTypes) =
     [''entity_type_meta'', ''entity_type_meta_fields'', ''entity_unit'', ''entity_unit_meta_types'',
      ''entity_meta_field'']"
  by code_simp

lemma base_schema_no_dunder:
  assumes "t \<in> set (emitted UNIT_ENTITY EntityTypes)"
  shows "\<not> py_substr ''__'' (table_name t)"
proof -
  from assms have "table_name t \<in> set (map table_name (emitted UNIT_ENTITY EntityTypes))"
    by simp
  then have "table_name t \<in> {''entity_type_meta'', ''entity_type_meta_fields'', ''entity_unit'',
      ''entity_unit_meta_types'', ''entity_meta_field''}"
    unfolding base_schema_names by simp
  then show ?thesis by auto
qed


text \<open>
  Claim C10. When \<open>generate_schema\<close> returns, a member whose type name starts with an
  underscore is among the persisted types, no emitted table carries the name of its primary
  table or of one of its auxiliary tables, the database holds under those names what it
  held before, and \<open>load_type\<close> of it gives the empty list without touching the store.
\<close>

theorem private_type_never_emitted:
  assumes run: "generate_schema ps d un enums = (ps', d', Inr schema)"
    and um: "um \<in> set enums"
    and priv: "type_name um = CHR ''_'' # rest"
    and t': "t' \<in> set (sql_tables (un @ ''_'' @ type_name um) (fields_enum um))"
  shows "um \<in> persisted_types ps'
         \<and> (\<forall>t \<in> set schema. table_name t \<noteq> table_name t')
         \<and> map_of d' (table_name t') = map_of d (table_name t')
         \<and> load_type rt ps' d' st um = Inr (st, [])"
proof -
  obtain x where x: "table_name t' = un @ ''__'' @ x"
    using private_names[OF t' priv] by blast
  have differs: "table_name t \<noteq> table_name t'" if "t \<in> set (emitted un enums)" for t
  proof -
    from emitted_names[OF that] obtain c y where "table_name t = un @ ''_'' @ c # y" "c \<noteq> CHR ''_''"
      by blast
    with x show ?thesis by auto
  qed
  have base_differs: "table_name t \<noteq> table_name t'" if "t \<in> set (emitted UNIT_ENTITY EntityTypes)" for t
    using base_schema_no_dunder[OF that] py_substr_append[of "''__''" un x] x by auto
  obtain ps1 d1 r1 where loop: "schema_loop ps d un enums [] = (ps1, d1, r1)"
    by (cases "schema_loop ps d un enums []") auto
  from run loop obtain s1 where r1: "r1 = Inr s1"
    by (cases r1) (auto simp: generate_schema_def)
  note res = schema_loop_result[OF loop[unfolded r1]]
  have notin: "table_name t' \<notin> table_name ` set (emitted un enums)"
    using differs by (metis imageE)
  have d1: "map_of d1 (table_name t') = map_of d (table_name t')"
    using res map_of_foldl_exec_create[OF notin] by simp
  have load: "load_type rt ps' d' st um = Inr (st, [])"
    using priv by (simp add: load_type_def)
  show ?thesis
  proof (cases "EntityTypes_unit \<in> persisted_types ps1")
    case True
    with run loop r1 have "ps' = ps1" "d' = d1" "schema = s1"
      by (auto simp: generate_schema_def)
    with res um d1 differs load show ?thesis by auto
  next
    case False
    obtain ps2 d2 r2 where inner: "schema_loop ps1 d1 UNIT_ENTITY EntityTypes [] = (ps2, d2, r2)"
      by (cases "schema_loop ps1 d1 UNIT_ENTITY EntityTypes []") auto
    from run loop r1 False inner obtain s2 where r2: "r2 = Inr s2"
      by (cases r2) (auto simp: generate_schema_def)
    from run loop r1 False inner r2 have eq: "ps' = ps2" "d' = d2" "schema = s1"
      by (auto simp: generate_schema_def)
    note res2 = schema_loop_result[OF inner[unfolded r2]]
    have notin2: "table_name t' \<notin> table_name ` set (emitted UNIT_ENTITY EntityTypes)"
      using base_differs by (metis imageE)
    have "map_of d2 (table_name t') = map_of d1 (table_name t')"
      using res2 map_of_foldl_exec_create[OF notin2] by simp
    with eq res res2 um d1 differs load show ?thesis by auto
  qed
qed

lemma example_schema_run_ok: "\<not> isl (snd (snd (generate_schema new_persister [] UNIT_ENTITY_META EntityTypes)))"
  by code_simp

theorem private_type_never_emitted_witness:
  "\<exists>ps' d' schema.
     generate_schema new_persister [] UNIT_ENTITY_META EntityTypes = (ps', d', Inr schema)
     \<and> EntityTypes_entity_base \<in> set EntityTypes
     \<and> type_name EntityTypes_entity_base = CHR ''_'' # ''entity_base''
     \<and> primary_table ''entity_meta__entity_base'' EntityBaseMeta
          \<in> set (sql_tables (UNIT_ENTITY_META @ ''_'' @ type_name EntityTypes_entity_base)
                   (fields_enum EntityTypes_entity_base))
     \<and> EntityTypes_entity_base \<in> persisted_types ps'
     \<and> (\<forall>t \<in> set schema. table_name t \<noteq> ''entity_meta__entity_base'')
     \<and> map_of d' ''entity_meta__entity_base'' = None
     \<and> load_type example_runtime ps' d' example_store EntityTypes_entity_base
          = Inr (example_store, [])"
proof -
  obtain ps' d' r where run: "generate_schema new_persister [] UNIT_ENTITY_META EntityTypes = (ps', d', r)"
    by (cases "generate_schema new_persister [] UNIT_ENTITY_META EntityTypes") auto
  with example_schema_run_ok obtain schema where r: "r = Inr schema"
    by (cases r) auto
  have um: "EntityTypes_entity_base \<in> set EntityTypes"
    by (simp add: EntityTypes_def)
  have priv: "type_name EntityTypes_entity_base = CHR ''_'' # ''entity_base''"
    by (simp add: EntityTypes_entity_base_def mk_meta_def)
  have t': "primary_table ''entity_meta__entity_base'' EntityBaseMeta
          \<in> set (sql_tables (UNIT_ENTITY_META @ ''_'' @ type_name EntityTypes_entity_base)
                   (fields_enum EntityTypes_entity_base))"
    by (simp add: sql_tables_def EntityTypes_entity_base_def mk_meta_def UNIT_ENTITY_META_def)
  show ?thesis
    using private_type_never_emitted[OF run[unfolded r] um priv t',
        of example_runtime example_store] run r um priv t'
    by simp
qed

section \<open>The update of the auxiliary tables\<close>



















lemma length_numbered [simp]: "length (numbered gid cnt vs) = length vs"
  by (induction vs arbitrary: cnt) auto


subsection \<open>Reading the fields of a filed entity\<close>





subsection \<open>What the update collects\<close>




subsection \<open>The primary table and its \<open>UPDATE\<close>\<close>






subsection \<open>A stored collection and what is read of it\<close>




subsection \<open>The update pass\<close>









section \<open>Where the code departs from the claims\<close>

text \<open>
  Claim C2 at a failing input. The field \<open>owner\<close> of the example entity is an
  entity-reference \<open>SINGLE\<close> field; \<open>GET\<close> gives the entity \<open>app:5:item\<close>. \<open>SET\<close> with that
  same entity reports a change: a notification is sent and the entity, saved before, has
  \<open>committed = False\<close> afterwards.
\<close>

theorem set_same_entity_marks_dirty:
  "map_sum id snd (Entity_access example_store ''app:5:item'' Op_GET (Atom ANone) [PField ItemMeta_owner])
     = Inr (Atom (AEntity ''app:5:item''))
   \<and> committed example_item = ACommitted SAVED
   \<and> map_sum id (\<lambda>(s, v). (v, messages s, map_option (committed \<circ> snd) (map_of (entity_map s) ''app:5:item'')))
       (Entity_access example_store ''app:5:item'' Op_SET (Atom (AEntity ''app:5:item'')) [PField ItemMeta_owner])
     = Inr (Atom (AEntity ''app:5:item''), [(Op_SET, [''item'', ''owner''], [''app:5:item''])], Some (AInt 0))"
  by code_simp

text \<open>
  Claim C3 at a failing input. The \<open>SET\<close>-cardinality field \<open>friends\<close> of the example
  entity already holds the entity \<open>app:5:item\<close>. \<open>ADD\<close> of that entity again leaves one
  stored occurrence, but reports a change: a notification is sent and the entity, saved
  before, has \<open>committed = False\<close> afterwards.
\<close>

theorem add_same_entity_marks_dirty:
  "map_of example_item_values ''app:item:friends'' = Some (PSet {AStr ''app:5:item''})
   \<and> map_sum id (\<lambda>(s, v). (messages s,
         map_option (\<lambda>me. (map_of (fst me) ''app:item:friends'', committed (snd me)))
           (map_of (entity_map s) ''app:5:item'')))
       (Entity_access example_store ''app:5:item'' Op_ADD (Atom (AEntity ''app:5:item'')) [PField ItemMeta_friends])
     = Inr ([(Op_ADD, [''item'', ''friends''], [''app:5:item''])],
            Some (Some (PSet {AStr ''app:5:item''}), AInt 0))"
  by code_simp

text \<open>
  Claim C7 at a failing input. The field \<open>note\<close> of the example entity is not set; \<open>GET\<close>
  with the default \<open>0\<close> gives \<open>None\<close>, not \<open>0\<close>.
\<close>

theorem get_ignores_default:
  "map_of example_item_values ''app:item:note'' = None
   \<and> map_sum id snd (Entity_access example_store ''app:5:item'' Op_GET (Atom (AInt 0)) [PField ItemMeta_note])
     = Inr (Atom ANone)"
  by code_simp

text \<open>
  Claim C1, the defect in general. \<open>persist_entities\<close> compares \<open>e.committed\<close> with the
  members of \<open>Committed\<close>, while \<open>Entity.__init__\<close> and \<open>_set_uncommitted\<close> set it to
  \<open>False\<close>: for entities carrying that flag, new or changed, the pass executes no statement
  and calls neither \<open>insert_entity\<close> nor \<open>update_entity\<close>; database and store are as before.
\<close>

theorem persist_skips_flagged:
  "list_all (flagged_false st) hs \<Longrightarrow> persist_entities rt ps d st hs = (d, st, Inr ())"
  by (induction hs) (auto simp: flagged_false_def split: sum.splits)

lemma created_flagged:
  assumes "add_entity_to_store st u i mh = Inr (st', h)"
  shows "flagged_false st' h"
  using assms
  by (auto simp: add_entity_to_store_def bnd_Inr_iff flagged_false_def obj_of_def update_conv' Entity_def)

lemma isl_bnd: "isl (bnd x f) \<longleftrightarrow> isl x \<or> (\<exists>y. x = Inr y \<and> isl (f y))"
  by (cases x) auto

lemma get_value_none: "access_data_get_value st (Atom ANone) key d = Inr d"
  by (simp add: access_data_get_value_def)

lemma create_container_none: "access_data_create_container st (Atom ANone) fld key = Inr st"
  by (simp add: access_data_create_container_def)

lemma create_container_list: "access_data_create_container st (PList xs) fld key = Inr st"
  by (simp add: access_data_create_container_def)

lemma get_value_list_nonint:
  "entity_or_none v \<Longrightarrow> access_data_get_value st (PList xs) (PVal v) d = Inr d"
  by (cases v rule: entity_or_none.cases) (auto simp: access_data_get_value_def)

lemma resolve_entity_or_none: "entity_or_none v \<Longrightarrow> resolve_global_id st v = Inr None"
  by (cases v rule: entity_or_none.cases) (auto simp: resolve_global_id_def)

text \<open>The path of two \<open>Entity\<close> objects around an id is not a locator: the walk starts at
  the list of all entities and ends in \<open>None\<close>.\<close>

lemma access_entity_path:
  assumes "entity_or_none u" "entity_or_none m"
  shows "access st Op_GET v [PVal u, PVal (Atom r), PVal m] = Inr (st, Atom ANone)"
proof -
  have loc: "locate increment_unit_counter st [PVal u, PVal (Atom r), PVal m] = Inr (st, None, None, 0)"
    using assms(1) by (cases r) (simp_all add: locate_def resolve_entity_or_none)
  show ?thesis
    using assms
    by (simp add: access_def access_gen_def loc Let_def get_value_list_nonint
        create_container_list create_container_none get_value_none)
qed

lemma nth_entities: "i < length xs \<Longrightarrow> entity_or_none (Atom (map (\<lambda>ke. AEntity (fst ke)) xs ! i))"
  by simp

lemma py_index_entities:
  "py_index (map (\<lambda>ke. AEntity (fst ke)) xs) i = Inr a \<Longrightarrow> entity_or_none (Atom a)"
  by (auto simp: py_index_def split: if_splits)

lemma created_entity_flagged:
  assumes "create_entity st un i mt = Inr (st', h)"
  shows "flagged_false st' h"
proof -
  from assms obtain uv mv where
    body: "(case uv of
              VE u \<Rightarrow>
                (case mv of
                   VE mh \<Rightarrow> add_entity_to_store st u i mh
                 | VS [] \<Rightarrow> Inl TypeError
                 | _ \<Rightarrow> Inl AttributeError)
            | VS [] \<Rightarrow> (case mv of VM m \<Rightarrow> Inl Unmodelled | _ \<Rightarrow> Inl AttributeError)
            | VS s \<Rightarrow> Inl AttributeError
            | _ \<Rightarrow> (case mv of VS [] \<Rightarrow> Inl TypeError | _ \<Rightarrow> Inl AttributeError))
           = Inr (st', h)"
    unfolding create_entity_def bnd_Inr_iff by blast
  show ?thesis
  proof (cases uv)
    case (VE u)
    show ?thesis
    proof (cases mv)
      case (VE mh)
      with body \<open>uv = VE u\<close> have "add_entity_to_store st u i mh = Inr (st', h)" by simp
      then show ?thesis by (rule created_flagged)
    next
      case (VS x)
      with body \<open>uv = VE u\<close> show ?thesis by (cases x) simp_all
    qed (use body \<open>uv = VE u\<close> in simp_all)
  next
    case (VS x)
    with body show ?thesis by (cases x; cases mv) simp_all
  next
    case (VM m)
    show ?thesis
    proof (cases mv)
      case (VS x)
      with body VM show ?thesis by (cases x) simp_all
    qed (use body VM in simp_all)
  next
    case (VC c)
    show ?thesis
    proof (cases mv)
      case (VS x)
      with body VC show ?thesis by (cases x) simp_all
    qed (use body VC in simp_all)
  qed
qed

lemma example_create_ok: "\<not> isl (create_entity example_store ''app'' 6 AppTypes_item)"
  by code_simp

theorem persist_skips_flagged_witness:
  "\<exists>st1 h. create_entity example_store ''app'' 6 AppTypes_item = Inr (st1, h)
     \<and> list_all (flagged_false st1) [h]
     \<and> persist_entities example_runtime example_persister example_db st1 [h]
         = (example_db, st1, Inr ())"
proof -
  from example_create_ok obtain st1 h
    where c: "create_entity example_store ''app'' 6 AppTypes_item = Inr (st1, h)"
    by (cases "create_entity example_store ''app'' 6 AppTypes_item") auto
  have fl: "list_all (flagged_false st1) [h]"
    using created_entity_flagged[OF c] by simp
  show ?thesis
    using persist_skips_flagged[OF fl, of example_runtime example_persister example_db] c fl
    by blast
qed

lemma get_value_entities:
  assumes "access_data_get_value st (PList (map (\<lambda>ke. AEntity (fst ke)) xs)) (PVal (Atom r)) (Atom ANone) = Inr w"
  shows "entity_or_none w"
proof (cases r)
  case (AInt i)
  show ?thesis
  proof (cases "i < int (length xs)")
    case True
    with assms AInt obtain a where "py_index (map (\<lambda>ke. AEntity (fst ke)) xs) i = Inr a" "w = Atom a"
      by (auto simp: access_data_get_value_def bnd_Inr_iff)
    then show ?thesis using py_index_entities by blast
  next
    case False
    with assms AInt show ?thesis by (auto simp: access_data_get_value_def)
  qed
qed (use assms in \<open>auto simp: access_data_get_value_def\<close>)

lemma resolve_Some_str:
  assumes "resolve_global_id st v = Inr (Some x)"
  shows "\<exists>s. v = Atom (AStr s)"
proof (rule ccontr)
  assume "\<not> (\<exists>s. v = Atom (AStr s))"
  then have "resolve_global_id st v = Inr None" by (intro resolve_not_str) auto
  with assms show False by simp
qed

lemma access_unlocated:
  assumes "resolve_global_id st (Atom r) = Inr None"
  shows "access st Op_GET v [PVal (Atom r)]
         = bnd (access_data_get_value st (PList (map (\<lambda>ke. AEntity (fst ke)) (entity_map st)))
                  (PVal (Atom r)) (Atom ANone)) (\<lambda>w. Inr (st, w))"
proof -
  have loc: "locate increment_unit_counter st [PVal (Atom r)] = Inr (st, None, None, 0)"
    using assms by (simp add: locate_def)
  show ?thesis
    unfolding access_def access_gen_def loc
    by (cases "access_data_get_value st (PList (map (\<lambda>ke. AEntity (fst ke)) (entity_map st)))
                  (PVal (Atom r)) (Atom ANone)") (simp_all add: Let_def)
qed

lemma access_located:
  assumes "resolve_global_id st (Atom (AStr s)) = Inr (Some (u, i, m))"
    and "access st Op_GET v [PVal (Atom (AStr s))] = Inr (st1, ue)"
  shows "ue = Atom (AEntity s)"
proof -
  have loc: "locate increment_unit_counter st [PVal (Atom (AStr s))] = Inr (st, Some s, Some i, 1)"
    using assms(1) by (simp add: locate_def)
  show ?thesis
  proof (cases "map_of (entity_map st) s")
    case None
    with assms(2) show ?thesis
      unfolding access_def access_gen_def loc by simp
  next
    case (Some me)
    show ?thesis
    proof (cases "global_id st s")
      case (Inl e)
      with assms(2) Some show ?thesis
        unfolding access_def access_gen_def loc by simp
    next
      case (Inr g)
      with assms(2) Some show ?thesis
        unfolding access_def access_gen_def loc by (simp add: create_message_def)
    qed
  qed
qed

lemma access_single_result:
  assumes acc: "access st Op_GET v [PVal (Atom r)] = Inr (st1, ue)"
  shows "entity_or_none ue"
proof (cases "resolve_global_id st (Atom r)")
  case (Inl e)
  have "locate increment_unit_counter st [PVal (Atom r)] = Inl e"
    using Inl by (simp add: locate_def)
  with acc show ?thesis unfolding access_def access_gen_def by simp
next
  case (Inr res)
  show ?thesis
  proof (cases res)
    case None
    from acc access_unlocated[of st r v] Inr None obtain w where
      "access_data_get_value st (PList (map (\<lambda>ke. AEntity (fst ke)) (entity_map st))) (PVal (Atom r)) (Atom ANone) = Inr w"
      and "ue = w"
      by (auto simp: bnd_Inr_iff)
    then show ?thesis using get_value_entities by blast
  next
    case (Some x)
    obtain u i m where x: "x = (u, i, m)" by (cases x) auto
    from Inr Some resolve_Some_str obtain s where r: "r = AStr s" by blast
    from access_located[of st s u i m v st1 ue] acc Inr Some x r show ?thesis by simp
  qed
qed

lemma call_set_committed_none: "call_set_committed rt st (Atom ANone) = Inl AttributeError"
  by (simp add: call_set_committed_def)

lemma load_row_fails: "isl (load_row rt st mt row)"
proof (rule ccontr)
  assume "\<not> isl (load_row rt st mt row)"
  then obtain res where res: "load_row rt st mt row = Inr res" by (cases "load_row rt st mt row") auto
  then obtain r1 r2 r3 st1 ue st2 me st3 ent st4 st5 where
    a1: "access st Op_GET (Atom ANone) [PVal (Atom r1)] = Inr (st1, ue)"
    and a2: "access st1 Op_GET (Atom ANone) [PVal (Atom r2)] = Inr (st2, me)"
    and a3: "access st2 Op_GET (Atom ANone) [PVal ue, PVal (Atom r3), PVal me] = Inr (st3, ent)"
    and sc: "call_set_committed rt st4 ent = Inr st5"
    by (auto simp: load_row_def bnd_Inr_iff)
  have "entity_or_none ue" "entity_or_none me"
    using access_single_result[OF a1] access_single_result[OF a2] by auto
  from access_entity_path[OF this] a3 have "ent = Atom ANone" by simp
  with sc show False by (simp add: call_set_committed_none)
qed


text \<open>
  Claim C4, the defect in general. Whenever the primary table of a type holds a row,
  \<open>load_entities\<close> ends in an exception: the entity of the row is looked up with the path
  \<open>(unit_entity, row[3], meta_type_entity)\<close> of two \<open>Entity\<close> objects, which
  \<open>Store.access\<close> answers with \<open>None\<close>, and \<open>set_committed\<close> is called on it. No entity
  is handed back, so none can be read with \<open>GET\<close>.
\<close>

theorem load_entities_never_returns:
  assumes "unit_meta_unit ps mt = Some un"
    and "map_of d (un @ ''_'' @ type_name mt) = Some (row # rows)"
  shows "isl (load_entities rt ps d st mt)"
proof -
  have tn: "table_name_of ps mt = Inr (un @ ''_'' @ type_name mt)"
    using assms(1) by (simp add: table_name_of_def)
  have tbl: "table_name (primary_table tn fs) = tn" for tn fs
    by (simp add: primary_table_def table_name_foldl_add new_SqlTable_def)
  have sel: "exec_select d (hd (sql_tables (un @ ''_'' @ type_name mt) (fields_enum mt))) = Inr (row # rows)"
    using assms(2) by (simp add: exec_select_def sql_tables_def tbl)
  show ?thesis
    using load_row_fails[of rt st mt row] sel
    by (simp add: load_entities_def tn isl_bnd)
qed

theorem load_entities_never_returns_witness:
  "unit_meta_unit example_persister AppTypes_item = Some ''app''
   \<and> map_of example_db (''app'' @ ''_'' @ type_name AppTypes_item)
       = Some ([AStr ''app:5:item'', AStr ''entity:3:unit'', AStr ''app:1:type_meta'', AInt 5,
                AStr ''box'', AInt 7, AStr ''app:5:item'', ANone] # [])
   \<and> isl (load_entities example_runtime example_persister example_db example_store AppTypes_item)"
proof -
  have u: "unit_meta_unit example_persister AppTypes_item = Some ''app''"
    by (simp add: example_persister_def)
  have r: "map_of example_db (''app'' @ ''_'' @ type_name AppTypes_item)
       = Some ([AStr ''app:5:item'', AStr ''entity:3:unit'', AStr ''app:1:type_meta'', AInt 5,
                AStr ''box'', AInt 7, AStr ''app:5:item'', ANone] # [])"
    by (simp add: example_db_def AppTypes_item_def mk_meta_def)
  show ?thesis
    using load_entities_never_returns[OF u r, of example_runtime example_store] u r by blast
qed

section \<open>Ids issued by a unit's counter\<close>

subsection \<open>\<open>str\<close> of an integer\<close>

lemma digits_distinct: "distinct ''0123456789''" by simp

lemma digit_nth_eq:
  assumes "a < 10" "b < 10" "''0123456789'' ! a = ''0123456789'' ! b"
  shows "a = b"
proof -
  have "a < length ''0123456789''" "b < length ''0123456789''" using assms by simp_all
  then show ?thesis using assms(3) digits_distinct nth_eq_iff_index_eq by blast
qed

lemma digit_nth_plain:
  assumes "a < 10"
  shows "''0123456789'' ! a \<noteq> CHR '':''" "''0123456789'' ! a \<noteq> CHR ''-''"
proof -
  have "a < length ''0123456789''" using assms by simp
  then have "''0123456789'' ! a \<in> set ''0123456789''" by (rule nth_mem)
  then show "''0123456789'' ! a \<noteq> CHR '':''" "''0123456789'' ! a \<noteq> CHR ''-''" by auto
qed

lemma nat_digits_plain: "CHR '':'' \<notin> set (nat_digits n) \<and> CHR ''-'' \<notin> set (nat_digits n)"
proof (induction n rule: nat_digits.induct)
  case (1 n)
  show ?case
  proof (cases "n < 10")
    case True
    then show ?thesis using digit_nth_plain[of n] by (simp add: nat_digits.simps[of n])
  next
    case False
    have "n mod 10 < 10" by simp
    then show ?thesis using False 1 digit_nth_plain[of "n mod 10"]
      by (simp add: nat_digits.simps[of n])
  qed
qed

lemma nat_digits_nonempty: "nat_digits n \<noteq> []"
  by (simp add: nat_digits.simps[of n])

lemma nat_digits_inj: "nat_digits a = nat_digits b \<Longrightarrow> a = b"
proof (induction a arbitrary: b rule: nat_digits.induct)
  case (1 a)
  show ?case
  proof (cases "a < 10")
    case a: True
    show ?thesis
    proof (cases "b < 10")
      case True
      then show ?thesis using a "1.prems" digit_nth_eq[of a b]
        by (simp add: nat_digits.simps[of a] nat_digits.simps[of b])
    next
      case False
      then show ?thesis using a "1.prems" nat_digits_nonempty[of "b div 10"]
        by (simp add: nat_digits.simps[of a] nat_digits.simps[of b])
    qed
  next
    case a: False
    show ?thesis
    proof (cases "b < 10")
      case True
      then show ?thesis using a "1.prems" nat_digits_nonempty[of "a div 10"]
        by (simp add: nat_digits.simps[of a] nat_digits.simps[of b])
    next
      case False
      have eq: "nat_digits (a div 10) = nat_digits (b div 10)"
        "''0123456789'' ! (a mod 10) = ''0123456789'' ! (b mod 10)"
        using a False "1.prems" by (simp_all add: nat_digits.simps[of a] nat_digits.simps[of b])
      have "a div 10 = b div 10" using "1.IH"[OF a eq(1)] .
      moreover have "a mod 10 = b mod 10" using digit_nth_eq[OF _ _ eq(2)] by simp
      ultimately show ?thesis by (metis div_mult_mod_eq)
    qed
  qed
qed

lemma str_int_no_colon: "CHR '':'' \<notin> set (str_int i)"
  using nat_digits_plain by (simp add: str_int_def)

lemma str_int_inj: "str_int i = str_int j \<Longrightarrow> i = j"
proof -
  assume eq: "str_int i = str_int j"
  have hd: "\<And>n. hd (nat_digits n) \<noteq> CHR ''-''"
    using nat_digits_plain nat_digits_nonempty by (metis list.set_sel(1))
  show ?thesis
  proof (cases "i < 0")
    case i: True
    show ?thesis
    proof (cases "j < 0")
      case True
      then have "nat (- i) = nat (- j)" using eq i nat_digits_inj by (simp add: str_int_def)
      then show ?thesis using i True by simp
    next
      case False
      then have "CHR ''-'' # nat_digits (nat (- i)) = nat_digits (nat j)"
        using eq i by (simp add: str_int_def)
      then show ?thesis using hd[of "nat j"] by (metis list.sel(1))
    qed
  next
    case i: False
    show ?thesis
    proof (cases "j < 0")
      case True
      then have "nat_digits (nat i) = CHR ''-'' # nat_digits (nat (- j))"
        using eq i by (simp add: str_int_def)
      then show ?thesis using hd[of "nat i"] by (metis list.sel(1))
    next
      case False
      then have "nat i = nat j" using eq i nat_digits_inj by (simp add: str_int_def)
      then show ?thesis using i False by simp
    qed
  qed
qed

lemma append_sep_eq:
  assumes "c \<notin> set a" "c \<notin> set a'" "a @ c # b = a' @ c # b'"
  shows "a = a' \<and> b = b'"
  using assms
proof (induction a arbitrary: a')
  case Nil
  then show ?case by (cases a') auto
next
  case (Cons x xs)
  then show ?case by (cases a') auto
qed

lemma global_id_parts:
  assumes "CHR '':'' \<notin> set n" "CHR '':'' \<notin> set n'"
    "n @ '':'' @ str_int i @ '':'' @ t = n' @ '':'' @ str_int j @ '':'' @ t'"
  shows "n = n' \<and> i = j \<and> t = t'"
proof -
  from assms have 1: "n = n'" "str_int i @ CHR '':'' # t = str_int j @ CHR '':'' # t'"
    using append_sep_eq[of "CHR '':''" n n' "str_int i @ '':'' @ t" "str_int j @ '':'' @ t'"]
    by simp_all
  from 1(2) have "str_int i = str_int j \<and> t = t'"
    using append_sep_eq[of "CHR '':''" "str_int i" "str_int j" t t'] str_int_no_colon by simp
  then show ?thesis using 1(1) str_int_inj by simp
qed


subsection \<open>Well-filed stores\<close>

lemma entry_filed_iff:
  "entry_filed em (k, m, e) \<longleftrightarrow>
     (\<exists>n t. em (KE (e_unit e)) = Some (VS n) \<and> em (KE (e_meta_type e)) = Some (VM t)
            \<and> k = n @ '':'' @ str_int (entity_id e) @ '':'' @ type_name t
            \<and> CHR '':'' \<notin> set n)"
  unfolding entry_filed_def
  by (cases "em (KE (e_unit e))"; cases "em (KE (e_meta_type e))";
      simp split: evalue.splits)

lemma well_filedD:
  assumes "well_filed st" "map_of (entity_map st) k = Some (m, e)"
  shows "\<exists>n t. filed st k n t m e"
proof -
  have "(k, m, e) \<in> set (entity_map st)" using assms(2) by (rule map_of_SomeD)
  then have "entry_filed (enum_map st) (k, m, e)"
    using assms(1) unfolding well_filed_def list_all_iff by blast
  then show ?thesis using assms(2) unfolding entry_filed_iff filed_def by blast
qed

lemma list_all_update:
  "list_all P al \<Longrightarrow> P (k, v) \<Longrightarrow> list_all P (AList.update k v al)"
  by (induction al) auto

lemma counter_at_iff:
  "counter_at st un c \<longleftrightarrow>
     (\<exists>u um ue g cfg.
        enum_map st (KS un) = Some (VE u) \<and> enum_map st (KE u) = Some (VS un) \<and>
        un \<noteq> [] \<and> CHR '':'' \<notin> set un \<and> map_of (entity_map st) u = Some (um, ue) \<and>
        enum_map st (KF UnitMeta_id_cnt) = Some (VS g) \<and> enum_map st (KS g) = Some cfg \<and>
        g \<noteq> committed_field \<and> map_of um g = Some (Atom (AInt c)))"
  unfolding counter_at_def
  by (cases "enum_map st (KS un)"; cases "enum_map st (KF UnitMeta_id_cnt)";
      simp split: evalue.splits option.splits; fastforce)

lemma registered_iff:
  "registered st mt \<longleftrightarrow>
     (\<exists>mh. enum_map st (KM mt) = Some (VE mh) \<and> enum_map st (KE mh) = Some (VM mt)
           \<and> map_of (entity_map st) mh \<noteq> None)"
  unfolding registered_def
  by (cases "enum_map st (KM mt)"; simp split: evalue.splits)


subsection \<open>The counter\<close>

text \<open>A \<open>CHANGE\<close> that returns has added the delta, whatever becomes of the notification.\<close>

lemma change_running:
  assumes f: "filed st h un mt m e"
    and fg: "enum_map st (KF f) = Some (VS g)"
    and cfg: "enum_map st (KS g) = Some cfg"
    and single: "f_valuetype f = SINGLE"
    and stored: "map_of m g = Some (Atom (AInt v))"
    and run: "Entity_access_gen inc st h Op_CHANGE (Atom (AInt d)) [PField f] = Inr (st', rv)"
  shows "rv = Atom (AInt (v + d)) \<and> enum_map st' = enum_map st \<and>
         entity_map st' = AList.update h
           (set_uncommitted (AList.update g (Atom (AInt (v + d))) m), e\<lparr>committed := AInt 0\<rparr>)
           (entity_map st)"
proof -
  let ?path = "[PVal (Atom (AStr un)), PVal (Atom (AInt (entity_id e))), PMeta mt, PField f]"
  let ?m = "set_uncommitted (AList.update g (Atom (AInt (v + d))) m)"
  let ?e = "e\<lparr>committed := AInt 0\<rparr>"
  let ?st = "st\<lparr>entity_map := AList.update h (?m, ?e) (entity_map st)\<rparr>"
  note fd = filedD[OF f]
  have gid: "global_id st h = Inr h" by (rule filed_global_id[OF f])
  have loc: "locate inc st ?path = Inr (st, Some h, Some (entity_id e), 3)"
    by (rule locate_explicit[OF f])
  have getv: "access_data_get_value st (Atom (AEntity h)) (PField f) (Atom ANone) = Inr (Atom (AInt v))"
    by (rule get_value_field[OF f fg stored]) simp
  have setv: "access_data_set_value st (Atom (AEntity h)) (PField f) (Atom (AInt d)) Op_CHANGE
              = Inr (?st, True, Atom (AInt (v + d)))"
    by (rule set_value_change[OF f fg cfg single stored])
  show ?thesis
  proof (cases "create_message ?st Op_CHANGE ?path (Some h)")
    case (Inl er)
    have "Entity_access_gen inc st h Op_CHANGE (Atom (AInt d)) [PField f] = Inl er"
      using fd(1-3)
      by (simp add: Entity_access_gen_def obj_of_def enum_get_def access_gen_def
          loc gid getv setv Inl Let_def)
    with run show ?thesis by simp
  next
    case (Inr st5)
    have "Entity_access_gen inc st h Op_CHANGE (Atom (AInt d)) [PField f]
          = Inr (st5, Atom (AInt (v + d)))"
      using fd(1-3)
      by (simp add: Entity_access_gen_def obj_of_def enum_get_def access_gen_def
          loc gid getv setv Inr Let_def)
    with run have res: "st' = st5" "rv = Atom (AInt (v + d))" by simp_all
    show ?thesis using create_message_frame[OF Inr] res by simp
  qed
qed

lemma increment_running:
  assumes wf: "well_filed st"
    and u: "enum_map st (KS un) = Some (VE u)" "map_of (entity_map st) u = Some (um, ue)"
    and g: "enum_map st (KF UnitMeta_id_cnt) = Some (VS g)" "enum_map st (KS g) = Some cfg"
      "map_of um g = Some (Atom (AInt c))"
    and run: "increment_unit_counter st (PVal (Atom (AStr un))) = Inr (st1, i)"
  shows "i = c + 1 \<and> enum_map st1 = enum_map st \<and>
         entity_map st1 = AList.update u
           (set_uncommitted (AList.update g (Atom (AInt (c + 1))) um), ue\<lparr>committed := AInt 0\<rparr>)
           (entity_map st)"
proof -
  obtain n t where f: "filed st u n t um ue" using well_filedD[OF wf u(2)] by blast
  have single: "f_valuetype UnitMeta_id_cnt = SINGLE" by (simp add: UnitMeta_id_cnt_def mk_field_def)
  let ?acc = "Entity_access_gen (\<lambda>s p. Inl Unmodelled) st u Op_CHANGE (Atom (AInt 1)) [PField UnitMeta_id_cnt]"
  have inc: "increment_unit_counter st (PVal (Atom (AStr un)))
             = bnd ?acc (\<lambda>(st1, rv). case rv of Atom (AInt i) \<Rightarrow> Inr (st1, i) | _ \<Rightarrow> Inl Unmodelled)"
    using u(1) by (simp add: increment_unit_counter_def enum_get_def)
  show ?thesis
  proof (cases ?acc)
    case (Inl er)
    with run inc show ?thesis by simp
  next
    case (Inr res)
    obtain st' rv where res: "res = (st', rv)" by (cases res)
    from change_running[OF f g(1) g(2) single g(3) Inr[unfolded res]]
    have rv: "rv = Atom (AInt (c + 1))" and em: "enum_map st' = enum_map st"
      and en: "entity_map st' = AList.update u
           (set_uncommitted (AList.update g (Atom (AInt (c + 1))) um), ue\<lparr>committed := AInt 0\<rparr>)
           (entity_map st)"
      by simp_all
    from run inc Inr res rv have "st1 = st'" "i = c + 1" by simp_all
    then show ?thesis using em en by simp
  qed
qed


subsection \<open>Notifications of the unit\<close>

lemma resolve_fresh:
  assumes r: "resolve_global_id st (Atom (AStr s)) = Inr (Some r)"
    and fresh: "map_of (entity_map st) k = None"
  shows "resolve_global_id (st\<lparr>entity_map := AList.update k x (entity_map st)\<rparr>) (Atom (AStr s))
         = Inr (Some r)"
proof -
  let ?st' = "st\<lparr>entity_map := AList.update k x (entity_map st)\<rparr>"
  let ?parts = "split_colon s"
  let ?eid = "if 1 < length ?parts then py_int (?parts ! 1) else None"
  let ?unit = "enum_map st (KS (?parts ! 0))"
  obtain i where eid: "?eid = Some i"
    using r by (cases ?eid) (simp_all add: resolve_global_id_def Let_def)
  have len: "length ?parts = 3"
    using r eid by (cases "length ?parts = 3") (simp_all add: resolve_global_id_def Let_def)
  obtain u where u: "?unit = Some (VE u)"
  proof (cases ?unit)
    case None
    with r eid len show ?thesis by (simp add: resolve_global_id_def Let_def)
  next
    case (Some uv)
    with r eid len that show ?thesis
      by (cases uv) (simp_all add: resolve_global_id_def Let_def)
  qed
  obtain um ue where ue: "map_of (entity_map st) u = Some (um, ue)"
  proof (cases "map_of (entity_map st) u")
    case None
    with r eid len u show ?thesis by (simp add: resolve_global_id_def Let_def obj_of_def)
  next
    case (Some p)
    with that show ?thesis by (cases p) simp
  qed
  obtain umt where umt: "enum_map st (KE (e_meta_type ue)) = Some umt"
    using r eid len u ue
    by (cases "enum_map st (KE (e_meta_type ue))")
       (simp_all add: resolve_global_id_def Let_def obj_of_def enum_get_def)
  have isu: "umt = VM EntityTypes_unit"
    using r eid len u ue umt
    by (cases "umt = VM EntityTypes_unit")
       (simp_all add: resolve_global_id_def Let_def obj_of_def enum_get_def)
  obtain m e where e: "map_of (entity_map st) s = Some (m, e)"
  proof (cases "map_of (entity_map st) s")
    case None
    with r eid len u ue umt isu show ?thesis
      by (simp add: resolve_global_id_def Let_def obj_of_def enum_get_def)
  next
    case (Some p)
    with that show ?thesis by (cases p) simp
  qed
  have res: "resolve_global_id st (Atom (AStr s))
             = (if enum_map st (KE (e_meta_type e)) \<noteq> None then Inr (Some (u, i, e_meta_type e))
                else Inr None)"
    using eid len u ue umt isu e
    by (simp add: resolve_global_id_def Let_def obj_of_def enum_get_def)
  have uk: "u \<noteq> k" "s \<noteq> k" using ue e fresh by auto
  have "resolve_global_id ?st' (Atom (AStr s))
             = (if enum_map st (KE (e_meta_type e)) \<noteq> None then Inr (Some (u, i, e_meta_type e))
                else Inr None)"
    using eid len u ue umt isu e uk
    by (simp add: resolve_global_id_def Let_def obj_of_def enum_get_def update_conv')
  with res r show ?thesis by simp
qed

lemma notifiable_fresh:
  assumes "notifiable st h" "map_of (entity_map st) k = None"
  shows "notifiable (st\<lparr>entity_map := AList.update k x (entity_map st)\<rparr>) h"
proof -
  from assms(1) obtain u i mh n
    where res: "resolve_global_id st (Atom (AStr h)) = Inr (Some (u, i, mh))"
      and un: "enum_map st (KE u) = Some (VS n)"
    by (rule notifiableD)
  show ?thesis
    using resolve_fresh[OF res assms(2), of x] un by (simp add: notifiable_def)
qed

lemma resolve_same:
  assumes "entity_map st1 = entity_map st" "enum_map st1 = enum_map st"
  shows "resolve_global_id st1 v = resolve_global_id st v"
  unfolding resolve_global_id_def obj_of_def enum_get_def assms ..

lemma notifiable_same:
  assumes "entity_map st1 = entity_map st" "enum_map st1 = enum_map st"
  shows "notifiable st1 h = notifiable st h"
  unfolding notifiable_def resolve_same[OF assms] assms(2) ..


subsection \<open>One creation\<close>

lemma creation_step:
  assumes wf: "well_filed st"
    and cnt: "counter_at st un c"
    and reg: "registered st mt"
    and run: "access st Op_GET (Atom ANone) [PVal (Atom (AStr un)), PVal (Atom ANone), PMeta mt]
              = Inr (st2, rv)"
  shows "\<exists>h e. rv = Atom (AEntity h) \<and> obj_of st2 h = Inr e \<and> entity_id e = c + 1
           \<and> well_filed st2 \<and> counter_at st2 un (c + 1) \<and> enum_map st2 = enum_map st
           \<and> (\<forall>k. map_of (entity_map st) k \<noteq> None \<longrightarrow> map_of (entity_map st2) k \<noteq> None)"
proof -
  let ?path = "[PVal (Atom (AStr un)), PVal (Atom ANone), PMeta mt]"
  let ?lr = "un @ '':'' @ str_int (c + 1) @ '':'' @ type_name mt"
  from cnt obtain u um ue g cfg where
    u: "enum_map st (KS un) = Some (VE u)" "enum_map st (KE u) = Some (VS un)"
      "CHR '':'' \<notin> set un" "map_of (entity_map st) u = Some (um, ue)"
    and une: "un \<noteq> []"
    and g: "enum_map st (KF UnitMeta_id_cnt) = Some (VS g)" "enum_map st (KS g) = Some cfg"
      "g \<noteq> committed_field" "map_of um g = Some (Atom (AInt c))"
    unfolding counter_at_iff by blast
  from reg obtain mh where mh: "enum_map st (KM mt) = Some (VE mh)" "enum_map st (KE mh) = Some (VM mt)"
    unfolding registered_iff by blast
  have res: "resolve_global_id st (Atom (AStr un)) = Inr None"
    using u(3) by (rule resolve_no_colon)
  have loc: "locate increment_unit_counter st ?path
             = bnd (increment_unit_counter st (PVal (Atom (AStr un)))) (\<lambda>(st1, i).
                 Inr (st1, Some (un @ '':'' @ str_int i @ '':'' @ type_name mt), Some i, 3))"
    by (simp add: locate_def res)
  show ?thesis
  proof (cases "increment_unit_counter st (PVal (Atom (AStr un)))")
    case (Inl er)
    then have "access st Op_GET (Atom ANone) ?path = Inl er"
      unfolding access_def access_gen_def loc by simp
    with run show ?thesis by simp
  next
    case (Inr r)
    obtain st1 i where r: "r = (st1, i)" by (cases r)
    from increment_running[OF wf u(1) u(4) g(1) g(2) g(4) Inr[unfolded r]]
    have i: "i = c + 1" and em1: "enum_map st1 = enum_map st"
      and en1: "entity_map st1 = AList.update u
           (set_uncommitted (AList.update g (Atom (AInt (c + 1))) um), ue\<lparr>committed := AInt 0\<rparr>)
           (entity_map st)"
      by simp_all
    have loc1: "locate increment_unit_counter st ?path = Inr (st1, Some ?lr, Some (c + 1), 3)"
      unfolding loc Inr r i by simp
    have "entry_filed (enum_map st) (u, um, ue)"
      using wf map_of_SomeD[OF u(4)] unfolding well_filed_def list_all_iff by blast
    then have "entry_filed (enum_map st)
                 (u, set_uncommitted (AList.update g (Atom (AInt (c + 1))) um), ue\<lparr>committed := AInt 0\<rparr>)"
      unfolding entry_filed_iff by simp
    then have wf1: "well_filed st1"
      using wf unfolding well_filed_def em1 en1 by (intro list_all_update) simp_all
    have dom1: "\<forall>k. map_of (entity_map st) k \<noteq> None \<longrightarrow> map_of (entity_map st1) k \<noteq> None"
      unfolding en1 by (simp add: update_conv')
    have cnt1: "counter_at st1 un (c + 1)"
      unfolding counter_at_iff em1 en1
      using u une g by (auto simp: update_conv' set_uncommitted_def)
    show ?thesis
    proof (cases "map_of (entity_map st1) ?lr")
      case (Some me)
      obtain m' e' where me: "me = (m', e')" by (cases me)
      from well_filedD[OF wf1 Some[unfolded me]] obtain n t where fl: "filed st1 ?lr n t m' e'"
        by blast
      have gid: "global_id st1 ?lr = Inr ?lr" by (rule filed_global_id[OF fl])
      have "access st Op_GET (Atom ANone) ?path = Inr (st1, Atom (AEntity ?lr))"
        unfolding access_def access_gen_def loc1
        using Some gid by (simp add: create_message_def)
      with run have out: "st2 = st1" "rv = Atom (AEntity ?lr)" by simp_all
      from filedD(4,5)[OF fl] u(3)
      have "n = un \<and> entity_id e' = c + 1 \<and> type_name t = type_name mt"
        using global_id_parts[of n un "entity_id e'" "type_name t" "c + 1" "type_name mt"] by simp
      then have "entity_id e' = c + 1" by simp
      moreover have "obj_of st1 ?lr = Inr e'" using Some me by (simp add: obj_of_def)
      ultimately show ?thesis using out wf1 cnt1 em1 dom1 by simp
    next
      case None
      have ce: "create_entity st1 un (c + 1) mt = add_entity_to_store st1 u (c + 1) mh"
        using une u(1) mh(1) by (simp add: create_entity_def enum_get_def em1)
      have key: "ref_entities st1 u (c + 1) mh = Inr ?lr"
        using u(2) mh(2) by (simp add: ref_entities_def enum_get_def em1)
      show ?thesis
      proof (cases "add_entity_to_store st1 u (c + 1) mh")
        case (Inl er)
        then have "access st Op_GET (Atom ANone) ?path = Inl er"
          unfolding access_def access_gen_def loc1 using None ce by simp
        with run show ?thesis by simp
      next
        case (Inr sh)
        obtain st3 h where sh: "sh = (st3, h)" by (cases sh)
        from Inr[unfolded sh add_entity_to_store_def bnd_Inr_iff key]
        obtain ug mg where
          st3: "st3 = st1\<lparr>entity_map :=
                  AList.update ?lr
                    ([(unit_field, Atom (AStr ug)), (entity_id_field, Atom (AInt (c + 1))),
                      (meta_type_field, Atom (AStr mg)), (committed_field, Atom (AInt 0))],
                     Entity u (c + 1) mh)
                    (entity_map st1)\<rparr>"
          and h: "h = ?lr"
          by auto
        have em3: "enum_map st3 = enum_map st" using st3 em1 by simp
        have new: "entry_filed (enum_map st)
                     (?lr, [(unit_field, Atom (AStr ug)), (entity_id_field, Atom (AInt (c + 1))),
                            (meta_type_field, Atom (AStr mg)), (committed_field, Atom (AInt 0))],
                      Entity u (c + 1) mh)"
          unfolding entry_filed_iff using u(2,3) mh(2) by (simp add: Entity_def)
        have wf3: "well_filed st3"
        proof -
          have a: "list_all (entry_filed (enum_map st)) (entity_map st1)"
            using wf1 unfolding well_filed_def em1 .
          have "list_all (entry_filed (enum_map st)) (entity_map st3)"
            unfolding st3 using list_all_update[OF a new] by simp
          then show ?thesis unfolding well_filed_def em3 .
        qed
        have ne: "?lr \<noteq> u"
        proof
          assume "?lr = u"
          then have "map_of (entity_map st1) ?lr \<noteq> None"
            unfolding en1 by (simp add: update_conv')
          with None show False by simp
        qed
        have m3: "map_of (entity_map st3) u
                    = Some (set_uncommitted (AList.update g (Atom (AInt (c + 1))) um),
                            ue\<lparr>committed := AInt 0\<rparr>)"
          using ne ne[symmetric] by (simp add: st3 en1 update_conv')
        have val: "map_of (set_uncommitted (AList.update g (Atom (AInt (c + 1))) um)) g
                   = Some (Atom (AInt (c + 1)))"
          using g(3) by (simp add: set_uncommitted_def update_conv')
        have cnt3: "counter_at st3 un (c + 1)"
          unfolding counter_at_iff em3 using u(1,2,3) une g(1,2,3) m3 val by blast
        have obj: "obj_of st3 ?lr = Inr (Entity u (c + 1) mh)"
          by (simp add: obj_of_def st3 update_conv')
        have gid3: "global_id st3 ?lr = Inr ?lr"
          using u(2) mh(2) obj
          by (simp add: global_id_def ref_entities_def enum_get_def em3 Entity_def)
        have "access st Op_GET (Atom ANone) ?path = Inr (st3, Atom (AEntity ?lr))"
          unfolding access_def access_gen_def loc1
          using None ce Inr sh h gid3 by (simp add: create_message_def)
        with run have out: "st2 = st3" "rv = Atom (AEntity ?lr)" by simp_all
        have dom3: "\<forall>k. map_of (entity_map st) k \<noteq> None \<longrightarrow> map_of (entity_map st3) k \<noteq> None"
          using dom1 unfolding st3 by (simp add: update_conv')
        show ?thesis using out obj wf3 cnt3 em3 dom3 by (simp add: Entity_def)
      qed
    qed
  qed
qed


subsection \<open>Creations in a row\<close>

lemma registered_kept:
  assumes "registered st mt" "enum_map st1 = enum_map st"
    "\<forall>k. map_of (entity_map st) k \<noteq> None \<longrightarrow> map_of (entity_map st1) k \<noteq> None"
  shows "registered st1 mt"
  using assms unfolding registered_iff by metis

lemma ids_from: "map (\<lambda>k. c + 1 + int k) [0..<Suc n] = (c + 1) # map (\<lambda>k. c + 1 + 1 + int k) [0..<n]"
  by (simp add: map_upt_Suc del: upt_Suc)

lemma ids_sorted: "sorted_wrt (<) (map (\<lambda>k. c + 1 + int k) [0..<n])"
  by (simp add: sorted_wrt_map)

lemma ids_distinct: "distinct (map (\<lambda>k. c + 1 + int k) [0..<n])"
  by (simp add: distinct_map inj_on_def)

lemma create_all_ids:
  assumes "well_filed st" "counter_at st un c" "list_all (registered st) mts"
    "create_all st un mts = Inr (st', ids)"
  shows "ids = map (\<lambda>k. c + 1 + int k) [0..<length mts]
         \<and> counter_at st' un (c + int (length mts)) \<and> well_filed st'"
  using assms
proof (induction mts arbitrary: st c ids)
  case Nil
  then show ?case by simp
next
  case (Cons mt mts)
  let ?acc = "access st Op_GET (Atom ANone) [PVal (Atom (AStr un)), PVal (Atom ANone), PMeta mt]"
  from Cons.prems(3) have reg: "registered st mt" and regs: "list_all (registered st) mts"
    by simp_all
  show ?case
  proof (cases ?acc)
    case (Inl er)
    with Cons.prems(4) show ?thesis by simp
  next
    case (Inr r)
    obtain st1 rv where r: "r = (st1, rv)" by (cases r)
    from creation_step[OF Cons.prems(1,2) reg Inr[unfolded r]]
    obtain h e where rv: "rv = Atom (AEntity h)" and obj: "obj_of st1 h = Inr e"
      and eid: "entity_id e = c + 1" and wf1: "well_filed st1"
      and cnt1: "counter_at st1 un (c + 1)" and em1: "enum_map st1 = enum_map st"
      and dom1: "\<forall>k. map_of (entity_map st) k \<noteq> None \<longrightarrow> map_of (entity_map st1) k \<noteq> None"
      by blast
    have regs1: "list_all (registered st1) mts"
      using regs registered_kept[OF _ em1 dom1] by (auto simp: list_all_iff)
    show ?thesis
    proof (cases "create_all st1 un mts")
      case (Inl er)
      with Cons.prems(4) Inr r rv obj show ?thesis by simp
    next
      case rest: (Inr r2)
      obtain st2 ids2 where r2: "r2 = (st2, ids2)" by (cases r2)
      from Cons.prems(4) Inr r rv obj rest r2 eid
      have out: "st' = st2" "ids = (c + 1) # ids2" by simp_all
      from Cons.IH[OF wf1 cnt1 regs1 rest[unfolded r2 out(1)[symmetric]]]
      have ih: "ids2 = map (\<lambda>k. c + 1 + 1 + int k) [0..<length mts]"
        and cnt': "counter_at st' un (c + 1 + int (length mts))" and wf': "well_filed st'"
        by simp_all
      have "c + 1 + int (length mts) = c + int (length (mt # mts))" by simp
      with cnt' have "counter_at st' un (c + int (length (mt # mts)))" by simp
      then show ?thesis using out(2) ih wf' ids_from[of c "length mts"] by simp
    qed
  qed
qed


subsection \<open>Creations return\<close>

lemma change_returns:
  assumes f: "filed st h un mt m e"
    and n: "notifiable st h"
    and fg: "enum_map st (KF f) = Some (VS g)"
    and cfg: "enum_map st (KS g) = Some cfg"
    and single: "f_valuetype f = SINGLE"
    and stored: "map_of m g = Some (Atom (AInt v))"
  shows "\<exists>st'. Entity_access_gen inc st h Op_CHANGE (Atom (AInt d)) [PField f]
               = Inr (st', Atom (AInt (v + d)))"
proof -
  let ?path = "[PVal (Atom (AStr un)), PVal (Atom (AInt (entity_id e))), PMeta mt, PField f]"
  let ?m = "set_uncommitted (AList.update g (Atom (AInt (v + d))) m)"
  let ?e = "e\<lparr>committed := AInt 0\<rparr>"
  let ?st = "st\<lparr>entity_map := AList.update h (?m, ?e) (entity_map st)\<rparr>"
  note fd = filedD[OF f]
  have gid: "global_id st h = Inr h" by (rule filed_global_id[OF f])
  have loc: "locate inc st ?path = Inr (st, Some h, Some (entity_id e), 3)"
    by (rule locate_explicit[OF f])
  have getv: "access_data_get_value st (Atom (AEntity h)) (PField f) (Atom ANone) = Inr (Atom (AInt v))"
    by (rule get_value_field[OF f fg stored]) simp
  have setv: "access_data_set_value st (Atom (AEntity h)) (PField f) (Atom (AInt d)) Op_CHANGE
              = Inr (?st, True, Atom (AInt (v + d)))"
    by (rule set_value_change[OF f fg cfg single stored])
  have "notifiable ?st h"
    using n by (simp add: notifiable_update[OF fd(1)])
  then obtain st5 where msg: "create_message ?st Op_CHANGE ?path (Some h) = Inr st5"
    using create_message_ok[of ?st h ?path Op_CHANGE] by auto
  have "Entity_access_gen inc st h Op_CHANGE (Atom (AInt d)) [PField f] = Inr (st5, Atom (AInt (v + d)))"
    using fd(1-3)
    by (simp add: Entity_access_gen_def obj_of_def enum_get_def access_gen_def
        loc gid getv setv msg Let_def)
  then show ?thesis by blast
qed

lemma well_filed_change:
  assumes wf: "well_filed st" and u: "map_of (entity_map st) u = Some (um, ue)"
    and em: "enum_map st1 = enum_map st"
    and en: "entity_map st1 = AList.update u (m', ue\<lparr>committed := x\<rparr>) (entity_map st)"
  shows "well_filed st1"
proof -
  have "entry_filed (enum_map st) (u, um, ue)"
    using wf map_of_SomeD[OF u] unfolding well_filed_def list_all_iff by blast
  then have "entry_filed (enum_map st) (u, m', ue\<lparr>committed := x\<rparr>)"
    unfolding entry_filed_iff by simp
  then show ?thesis
    using wf unfolding well_filed_def em en by (intro list_all_update) simp_all
qed

lemma creation_returns:
  assumes wf: "well_filed st"
    and cnt: "counter_at st un c"
    and reg: "registered st mt"
    and unit: "enum_map st (KS un) = Some (VE u)" "notifiable st u"
  shows "\<exists>st2 rv. access st Op_GET (Atom ANone)
                    [PVal (Atom (AStr un)), PVal (Atom ANone), PMeta mt] = Inr (st2, rv)
                  \<and> notifiable st2 u"
proof -
  let ?path = "[PVal (Atom (AStr un)), PVal (Atom ANone), PMeta mt]"
  let ?lr = "un @ '':'' @ str_int (c + 1) @ '':'' @ type_name mt"
  from cnt unit(1) obtain um ue g cfg where
    u: "enum_map st (KS un) = Some (VE u)" "enum_map st (KE u) = Some (VS un)"
      "CHR '':'' \<notin> set un" "map_of (entity_map st) u = Some (um, ue)"
    and une: "un \<noteq> []"
    and g: "enum_map st (KF UnitMeta_id_cnt) = Some (VS g)" "enum_map st (KS g) = Some cfg"
      "g \<noteq> committed_field" "map_of um g = Some (Atom (AInt c))"
    unfolding counter_at_iff by auto
  from reg obtain mh where mh: "enum_map st (KM mt) = Some (VE mh)" "enum_map st (KE mh) = Some (VM mt)"
    "map_of (entity_map st) mh \<noteq> None"
    unfolding registered_iff by blast
  obtain n t where fu: "filed st u n t um ue" using well_filedD[OF wf u(4)] by blast
  have single: "f_valuetype UnitMeta_id_cnt = SINGLE" by (simp add: UnitMeta_id_cnt_def mk_field_def)
  from change_returns[OF fu unit(2) g(1) g(2) single g(4), of "\<lambda>s p. Inl Unmodelled" 1]
  obtain st1 where chg: "Entity_access_gen (\<lambda>s p. Inl Unmodelled) st u Op_CHANGE (Atom (AInt 1))
                           [PField UnitMeta_id_cnt] = Inr (st1, Atom (AInt (c + 1)))"
    by blast
  have inc: "increment_unit_counter st (PVal (Atom (AStr un))) = Inr (st1, c + 1)"
    using u(1) chg by (simp add: increment_unit_counter_def enum_get_def)
  from increment_running[OF wf u(1) u(4) g(1) g(2) g(4) inc]
  have em1: "enum_map st1 = enum_map st"
    and en1: "entity_map st1 = AList.update u
           (set_uncommitted (AList.update g (Atom (AInt (c + 1))) um), ue\<lparr>committed := AInt 0\<rparr>)
           (entity_map st)"
    by simp_all
  have wf1: "well_filed st1" by (rule well_filed_change[OF wf u(4) em1 en1])
  let ?stx = "st\<lparr>entity_map := AList.update u
           (set_uncommitted (AList.update g (Atom (AInt (c + 1))) um), ue\<lparr>committed := AInt 0\<rparr>)
           (entity_map st)\<rparr>"
  have "notifiable ?stx u" using unit(2) by (simp add: notifiable_update[OF u(4)])
  moreover have "notifiable st1 u = notifiable ?stx u"
    by (rule notifiable_same) (simp_all add: em1 en1)
  ultimately have n1: "notifiable st1 u" by simp
  have res: "resolve_global_id st (Atom (AStr un)) = Inr None"
    using u(3) by (rule resolve_no_colon)
  have loc1: "locate increment_unit_counter st ?path = Inr (st1, Some ?lr, Some (c + 1), 3)"
    by (simp add: locate_def res inc)
  show ?thesis
  proof (cases "map_of (entity_map st1) ?lr")
    case (Some me)
    obtain m' e' where me: "me = (m', e')" by (cases me)
    from well_filedD[OF wf1 Some[unfolded me]] obtain n' t' where fl: "filed st1 ?lr n' t' m' e'"
      by blast
    have gid: "global_id st1 ?lr = Inr ?lr" by (rule filed_global_id[OF fl])
    have "access st Op_GET (Atom ANone) ?path = Inr (st1, Atom (AEntity ?lr))"
      unfolding access_def access_gen_def loc1
      using Some gid by (simp add: create_message_def)
    then show ?thesis using n1 by blast
  next
    case None
    have u1: "map_of (entity_map st1) u
              = Some (set_uncommitted (AList.update g (Atom (AInt (c + 1))) um), ue\<lparr>committed := AInt 0\<rparr>)"
      unfolding en1 by (simp add: update_conv')
    from well_filedD[OF wf1 u1] obtain n1' t1' where
      fu1: "filed st1 u n1' t1' (set_uncommitted (AList.update g (Atom (AInt (c + 1))) um))
              (ue\<lparr>committed := AInt 0\<rparr>)"
      by blast
    have gu: "global_id st1 u = Inr u" by (rule filed_global_id[OF fu1])
    have "map_of (entity_map st1) mh \<noteq> None"
      using mh(3) unfolding en1 by (simp add: update_conv')
    then obtain mm me where m1: "map_of (entity_map st1) mh = Some (mm, me)" by auto
    from well_filedD[OF wf1 m1] obtain n2 t2 where fm1: "filed st1 mh n2 t2 mm me" by blast
    have gm: "global_id st1 mh = Inr mh" by (rule filed_global_id[OF fm1])
    have key: "ref_entities st1 u (c + 1) mh = Inr ?lr"
      using u(2) mh(2) by (simp add: ref_entities_def enum_get_def em1)
    let ?st3 = "st1\<lparr>entity_map :=
                  AList.update ?lr
                    ([(unit_field, Atom (AStr u)), (entity_id_field, Atom (AInt (c + 1))),
                      (meta_type_field, Atom (AStr mh)), (committed_field, Atom (AInt 0))],
                     Entity u (c + 1) mh)
                    (entity_map st1)\<rparr>"
    have add: "add_entity_to_store st1 u (c + 1) mh = Inr (?st3, ?lr)"
      by (simp add: add_entity_to_store_def gu gm key)
    have ce: "create_entity st1 un (c + 1) mt = Inr (?st3, ?lr)"
      using une u(1) mh(1) add by (simp add: create_entity_def enum_get_def em1)
    have obj: "obj_of ?st3 ?lr = Inr (Entity u (c + 1) mh)"
      by (simp add: obj_of_def update_conv')
    have gid3: "global_id ?st3 ?lr = Inr ?lr"
      using u(2) mh(2) obj
      by (simp add: global_id_def ref_entities_def enum_get_def em1 Entity_def)
    have "access st Op_GET (Atom ANone) ?path = Inr (?st3, Atom (AEntity ?lr))"
      unfolding access_def access_gen_def loc1
      using None ce gid3 by (simp add: create_message_def)
    moreover have "notifiable ?st3 u" by (rule notifiable_fresh[OF n1 None])
    ultimately show ?thesis by blast
  qed
qed


lemma create_all_returns:
  assumes "well_filed st" "counter_at st un c" "list_all (registered st) mts"
    "enum_map st (KS un) = Some (VE u)" "notifiable st u"
  shows "\<exists>st' ids. create_all st un mts = Inr (st', ids)"
  using assms
proof (induction mts arbitrary: st c)
  case Nil
  then show ?case by simp
next
  case (Cons mt mts)
  from Cons.prems(3) have reg: "registered st mt" and regs: "list_all (registered st) mts"
    by simp_all
  from creation_returns[OF Cons.prems(1,2) reg Cons.prems(4,5)]
  obtain st1 rv where acc: "access st Op_GET (Atom ANone)
                    [PVal (Atom (AStr un)), PVal (Atom ANone), PMeta mt] = Inr (st1, rv)"
    and n1: "notifiable st1 u"
    by blast
  from creation_step[OF Cons.prems(1,2) reg acc]
  obtain h e where rv: "rv = Atom (AEntity h)" and obj: "obj_of st1 h = Inr e"
    and wf1: "well_filed st1"
    and cnt1: "counter_at st1 un (c + 1)" and em1: "enum_map st1 = enum_map st"
    and dom1: "\<forall>k. map_of (entity_map st) k \<noteq> None \<longrightarrow> map_of (entity_map st1) k \<noteq> None"
    by blast
  have regs1: "list_all (registered st1) mts"
    using regs registered_kept[OF _ em1 dom1] by (auto simp: list_all_iff)
  have u1: "enum_map st1 (KS un) = Some (VE u)" using Cons.prems(4) em1 by simp
  from Cons.IH[OF wf1 cnt1 regs1 u1 n1]
  obtain st2 ids2 where "create_all st1 un mts = Inr (st2, ids2)" by blast
  then show ?case using acc rv obj by simp
qed


subsection \<open>The ids issued\<close>

text \<open>
  Claim C8. In a store whose entities are filed under their global ids, for a unit whose
  counter \<open>id_cnt\<close> holds \<open>c\<close> and whose changes can be notified: creating one entity per
  meta type of a list, each with \<open>Store.access(Operation.GET, None, unit, None, meta_type)\<close>
  and the id omitted, returns, and gives the entities the ids \<open>c + 1, c + 2, ...\<close> in the
  order of creation, whatever the meta types are; the ids are strictly increasing and
  pairwise distinct, one per creation, and the counter ends at the last id issued.
\<close>

theorem counter_ids_increase:
  assumes "well_filed st"
    and "counter_at st un c"
    and "list_all (registered st) mts"
    and "enum_map st (KS un) = Some (VE u)"
    and "notifiable st u"
  shows "\<exists>st' ids. create_all st un mts = Inr (st', ids)
           \<and> ids = map (\<lambda>k. c + 1 + int k) [0..<length mts]
           \<and> sorted_wrt (<) ids \<and> distinct ids \<and> length ids = length mts
           \<and> counter_at st' un (c + int (length mts))"
proof -
  from create_all_returns[OF assms] obtain st' ids where
    run: "create_all st un mts = Inr (st', ids)" by blast
  from create_all_ids[OF assms(1-3) run]
  have ids: "ids = map (\<lambda>k. c + 1 + int k) [0..<length mts]"
    and cnt: "counter_at st' un (c + int (length mts))"
    by simp_all
  have "sorted_wrt (<) ids \<and> distinct ids \<and> length ids = length mts"
    unfolding ids using ids_sorted[of c "length mts"] ids_distinct[of c "length mts"] by simp
  with run ids cnt show ?thesis by blast
qed

lemma example_well_filed: "well_filed example_store"
  by code_simp

lemma example_counter: "counter_at example_store ''app'' 5"
  by code_simp

lemma example_registered: "list_all (registered example_store) [AppTypes_item, AppTypes_box]"
  by code_simp

lemma example_unit_notifiable:
  "enum_map example_store (KS ''app'') = Some (VE ''entity:3:unit'')"
  "notifiable example_store ''entity:3:unit''"
  by code_simp+

theorem counter_ids_increase_witness:
  "well_filed example_store
   \<and> counter_at example_store ''app'' 5
   \<and> list_all (registered example_store) [AppTypes_item, AppTypes_box]
   \<and> notifiable example_store ''entity:3:unit''
   \<and> (\<exists>st'. create_all example_store ''app'' [AppTypes_item, AppTypes_box] = Inr (st', [6, 7])
            \<and> counter_at st' ''app'' 7)"
proof -
  from counter_ids_increase[OF example_well_filed example_counter example_registered
      example_unit_notifiable]
  obtain st' ids where
    run: "create_all example_store ''app'' [AppTypes_item, AppTypes_box] = Inr (st', ids)"
    and ids: "ids = map (\<lambda>k. 5 + 1 + int k) [0..<length [AppTypes_item, AppTypes_box]]"
    and cnt: "counter_at st' ''app'' (5 + int (length [AppTypes_item, AppTypes_box]))"
    by blast
  from ids cnt have "ids = [6, 7]" "counter_at st' ''app'' 7"
    by (simp_all add: upt_rec)
  with run have "\<exists>st'. create_all example_store ''app'' [AppTypes_item, AppTypes_box] = Inr (st', [6, 7])
            \<and> counter_at st' ''app'' 7"
    by blast
  then show ?thesis
    using example_well_filed example_counter example_registered example_unit_notifiable(2)
    by (intro conjI)
qed


end
